theory Spec2Isabelle
  imports Main "HOL-Library.Sublist" "HOL-Library.AList"
begin

section \<open>Python exceptions as values\<close>

text \<open>
  The exceptions the two scripts can raise by themselves. A \<open>ValueError\<close> carries its
  message, a \<open>KeyError\<close> the missing key. \<open>KeyboardInterrupt\<close> and \<open>EOFError\<close> come from the terminal,
  \<open>OSError\<close> (with its subclasses \<open>FileNotFoundError\<close>, \<open>PermissionError\<close>,
  \<open>IsADirectoryError\<close>) from \<open>open\<close>, and \<open>EngineError\<close> stands for any failure raised
  inside the external inference engine.
\<close>

datatype error =
    ValueError string
  | KeyError string
  | IndexError
  | KeyboardInterrupt
  | EOFError
  | OSError
  | EngineError

section \<open>String helpers of the Python runtime\<close>

text \<open>\<open>sep.join(parts)\<close>.\<close>

fun join :: "string \<Rightarrow> string list \<Rightarrow> string" where
  "join sep [] = []"
| "join sep [x] = x"
| "join sep (x # y # ys) = x @ sep @ join sep (y # ys)"

text \<open>\<open>str(n)\<close> for a non-negative integer: its decimal digits.\<close>

definition digit_char :: "nat \<Rightarrow> char" where
  "digit_char d = ''0123456789'' ! d"

fun str_nat :: "nat \<Rightarrow> string" where
  "str_nat n = (if n < 10 then [digit_char n] else str_nat (n div 10) @ [digit_char (n mod 10)])"

declare str_nat.simps [simp del]

text \<open>The newline character, and \<open>c * n\<close> for a one-character string \<open>c\<close>.\<close>

definition nl :: string where
  "nl = [CHR 0x0A]"

definition repeat_str :: "char \<Rightarrow> nat \<Rightarrow> string" where
  "repeat_str c n = replicate n c"

section \<open>Prompt builder (\<open>build_conversation_prompt\<close>, identical in both scripts)\<close>

definition BOS :: string where "BOS = ''<s>''"
definition EOS :: string where "EOS = ''</s>''"
definition INST_START :: string where "INST_START = ''[INST]''"
definition INST_END :: string where "INST_END = ''[/INST]''"

text \<open>The body of the \<open>for user_msg, bot_msg in zip(...)\<close> loop: one \<open>extend\<close>.\<close>

definition extend_turn :: "string \<times> string \<Rightarrow> string list \<Rightarrow> string list" where
  "extend_turn p prompt_parts =
     prompt_parts @ [INST_START, fst p, INST_END, snd p, EOS]"

text \<open>
  \<open>user_messages[-1]\<close> raises \<open>IndexError\<close> on an empty list; the length check before it
  makes that branch unreachable, and it is kept as the source has it.
\<close>

definition build_conversation_prompt :: "string list \<Rightarrow> string list \<Rightarrow> error + string" where
  "build_conversation_prompt user_messages bot_messages =
     (if length user_messages \<noteq> length bot_messages + 1
      then Inl (ValueError ''User messages and bot messages must be of equal length'')
      else
        let prompt_parts = fold extend_turn (zip user_messages bot_messages) [BOS] in
        (case user_messages of
           [] \<Rightarrow> Inl IndexError
         | _ # _ \<Rightarrow>
             Inr (join '' '' (prompt_parts @ [INST_START, last user_messages, INST_END]))))"

section \<open>Batch solver: data model\<close>

text \<open>
  A Python \<open>dict\<close> with string keys, in insertion order. \<open>d[k] = v\<close> is
  \<open>AList.update k v d\<close> (an existing key keeps its place, a new key goes to the end),
  \<open>d[k]\<close> mutated in place is \<open>AList.map_entry k f d\<close>, and \<open>d.items()\<close>,
  \<open>d.keys()\<close>, \<open>d.values()\<close> are the list, \<open>map fst\<close> and \<open>map snd\<close> of it.
\<close>

type_synonym 'v pydict = "(string \<times> 'v) list"

text \<open>
  One entry of \<open>questions.json\<close>. Both keys are looked up by the code, so each may be
  absent: \<open>question['question_text']\<close> raises on a missing key, \<open>"options" in question\<close>
  tests for one.
\<close>

record question =
  question_text :: "string option"
  options :: "string list option"

text \<open>
  A session dictionary. \<open>generate_sessions\<close> is the only place that creates one, and it
  always sets \<open>question_raw\<close> and \<open>question_formatted\<close>; the three other keys are added
  later, so they are optional here.
\<close>

record session =
  question_raw :: question
  question_formatted :: string
  answers :: "string list option"
  final_answers :: "string list option"
  formatted_output :: "string option"

section \<open>Output formatter (\<open>format_session_outputs\<close>)\<close>

text \<open>
  The bodies of the two inner \<open>for i, ... in enumerate(...)\<close> loops. The local
  \<open>formatted_output\<close> is called \<open>out\<close> (and \<open>question_formatted\<close> is \<open>qf\<close> below),
  since a record field owns the name.
\<close>

definition append_answer :: "nat \<times> string \<Rightarrow> string \<Rightarrow> string" where
  "append_answer p out =
     out @ repeat_str CHR ''-'' 45 @ ''[ANSWER '' @ str_nat (fst p) @ '']''
       @ repeat_str CHR ''-'' 45 @ nl @ snd p @ nl @ nl @ nl"

definition append_final_answer :: "nat \<times> string \<Rightarrow> string \<Rightarrow> string" where
  "append_final_answer p out =
     out @ repeat_str CHR ''-'' 43 @ ''[FINAL ANSWER]''
       @ repeat_str CHR ''-'' 43 @ nl @ snd p @ nl @ nl @ nl"

text \<open>
  The body of the outer loop up to the assignment: the text computed for one session.
  \<open>session["answers"]\<close> raises \<open>KeyError\<close> when the key is absent.
\<close>

definition render_session :: "session \<Rightarrow> error + string" where
  "render_session s =
     (let out = question_formatted s @ nl @ nl @ nl in
      case answers s of
        None \<Rightarrow> Inl (KeyError ''answers'')
      | Some candidates \<Rightarrow>
          let out = fold append_answer (enumerate 0 candidates) out;
              out =
                (case final_answers s of
                   None \<Rightarrow> out
                 | Some finals \<Rightarrow> fold append_final_answer (enumerate 0 finals) out)
          in Inr out)"

text \<open>
  The function mutates the sessions in place and returns nothing, so the model returns the
  store as the call leaves it, together with the exception that ended the call, if any:
  sessions before the failing one have been written, the failing one and the later ones
  have not.
\<close>

fun format_session_outputs :: "session pydict \<Rightarrow> session pydict \<times> error option" where
  "format_session_outputs [] = ([], None)"
| "format_session_outputs ((question_id, s) # rest) =
     (case render_session s of
        Inl e \<Rightarrow> ((question_id, s) # rest, Some e)
      | Inr out \<Rightarrow>
          (let (rest', err) = format_session_outputs rest
           in ((question_id, s\<lparr>formatted_output := Some out\<rparr>) # rest', err)))"

section \<open>Session creation (\<open>generate_sessions\<close>)\<close>

definition append_option :: "nat \<times> string \<Rightarrow> string \<Rightarrow> string" where
  "append_option p qf =
     qf @ ''OPTION '' @ str_nat (fst p) @ '': '' @ snd p @ nl"

definition format_question :: "question \<Rightarrow> error + string" where
  "format_question q =
     (case question_text q of
        None \<Rightarrow> Inl (KeyError ''question_text'')
      | Some text \<Rightarrow>
          let qf = ''QUESTION: '' @ text @ nl;
              qf =
                (case options q of
                   None \<Rightarrow> qf
                 | Some opts \<Rightarrow> fold append_option (enumerate 0 opts) qf);
              qf = qf @ nl @ nl @ '' Please provide the answer and explain your reasoning!'';
              qf = qf
                @ '' If there are options to choose from, do not provide an answer different from the options.''
                @ nl
          in Inr qf)"

text \<open>
  The loop over \<open>raw_questions.items()\<close>, with the dictionary built so far and the
  standard output so far (\<open>print\<close> adds a newline). An exception leaves no dictionary
  behind.
\<close>

fun generate_sessions_loop ::
  "question pydict \<Rightarrow> session pydict \<Rightarrow> string \<Rightarrow> (error + session pydict) \<times> string"
where
  "generate_sessions_loop [] sessions out = (Inr sessions, out)"
| "generate_sessions_loop ((question_id, q) # rest) sessions out =
     (case format_question q of
        Inl e \<Rightarrow> (Inl e, out)
      | Inr qf \<Rightarrow>
          generate_sessions_loop rest
            (AList.update question_id
               \<lparr>question_raw = q, question_formatted = qf,
                answers = None, final_answers = None, formatted_output = None\<rparr>
               sessions)
            (out @ qf @ nl))"

definition generate_sessions :: "question pydict \<Rightarrow> (error + session pydict) \<times> string" where
  "generate_sessions raw_questions = generate_sessions_loop raw_questions [] []"

section \<open>Persistence (\<open>save_file\<close>)\<close>

text \<open>
  The files by name, and which names \<open>open(name, "w")\<close> accepts: the operating system
  decides that (the directory exists, the name is not a directory, writing is permitted),
  so it is a field of the state. The empty name is refused whatever the state:
  \<open>open("", "w")\<close> raises \<open>FileNotFoundError\<close>.
\<close>

record filesystem =
  contents :: "string \<rightharpoonup> string"
  writable :: "string \<Rightarrow> bool"

definition can_open :: "filesystem \<Rightarrow> string \<Rightarrow> bool" where
  "can_open fs name = (name \<noteq> [] \<and> writable fs name)"

text \<open>What one iteration of the loop passes to \<open>f.write\<close>.\<close>

definition save_block :: "nat \<times> string \<times> session \<Rightarrow> error + string" where
  "save_block e =
     (let qid = fst e; question_id = fst (snd e); s = snd (snd e);
          out = repeat_str CHR ''='' 100 @ nl
            @ ''Question #'' @ str_nat qid @ '' (ID'' @ question_id @ '')'' @ nl
            @ repeat_str CHR ''='' 100 @ nl
      in case formatted_output s of
           None \<Rightarrow> Inl (KeyError ''formatted_output'')
         | Some transcript \<Rightarrow> Inr (out @ transcript @ nl @ nl @ nl))"

text \<open>The loop, with the bytes written to the open file so far.\<close>

fun write_blocks :: "(nat \<times> string \<times> session) list \<Rightarrow> string \<Rightarrow> string \<times> error option" where
  "write_blocks [] written = (written, None)"
| "write_blocks (e # es) written =
     (case save_block e of
        Inl err \<Rightarrow> (written, Some err)
      | Inr block \<Rightarrow> write_blocks es (written @ block))"

text \<open>
  \<open>open(filename, "w")\<close> comes first: when it raises, nothing has been written and no file
  has changed. Otherwise it truncates the file; the \<open>with\<close> block closes it also when an
  exception passes through, so the file then holds what had been written. The optional
  argument is \<open>None\<close> when the caller leaves it out.
\<close>

definition save_file ::
  "session pydict \<Rightarrow> string option \<Rightarrow> filesystem \<Rightarrow> filesystem \<times> error option" where
  "save_file sessions filename fs =
     (let name = (case filename of None \<Rightarrow> ''answers.txt'' | Some f \<Rightarrow> f) in
      if can_open fs name
      then
        let (written, err) = write_blocks (enumerate 0 sessions) []
        in (fs\<lparr>contents := (contents fs)(name \<mapsto> written)\<rparr>, err)
      else (fs, Some OSError))"

section \<open>Batch answerer (\<open>answer_batch_questions\<close>, \<open>answer_batch_questions_final\<close>)\<close>

text \<open>
  \<open>SamplingParams(n, best_of, max_tokens)\<close>, and a call of \<open>llm.generate\<close>: the list of
  prompts with the sampling configuration. The engine is external; it is taken as a
  parameter that gives, for a request, either an exception or, per prompt, the texts of
  the returned outputs.
\<close>

datatype sampling_params = SamplingParams nat nat nat

type_synonym request = "string list \<times> sampling_params"

type_synonym engine = "request \<Rightarrow> error + string list list"

text \<open>
  What a round leaves behind: the store as mutated so far, the exception that ended the
  call if any, the requests submitted to the engine, and the text printed.
\<close>

record round_result =
  sessions_after :: "session pydict"
  raised :: "error option"
  submitted :: "request list"
  printed :: string

text \<open>The first loop of round 1, over \<open>sessions.values()\<close>.\<close>

fun round1_prompts :: "session list \<Rightarrow> error + string list" where
  "round1_prompts [] = Inr []"
| "round1_prompts (s # rest) =
     (case build_conversation_prompt [question_formatted s] [] of
        Inl e \<Rightarrow> Inl e
      | Inr prompt \<Rightarrow>
          (case round1_prompts rest of
             Inl e \<Rightarrow> Inl e
           | Inr prompts \<Rightarrow> Inr (prompt # prompts)))"

text \<open>
  The last loop of round 1, over \<open>enumerate(sessions.keys())\<close>: \<open>raw_answers[qid]\<close> raises
  \<open>IndexError\<close> when the engine returned fewer results than there are sessions.
\<close>

fun attach_answers ::
  "(nat \<times> string) list \<Rightarrow> string list list \<Rightarrow> session pydict \<Rightarrow> session pydict \<times> error option"
where
  "attach_answers [] raw_answers sessions = (sessions, None)"
| "attach_answers ((qid, question_id) # rest) raw_answers sessions =
     (if qid < length raw_answers
      then attach_answers rest raw_answers
             (AList.map_entry question_id (\<lambda>s. s\<lparr>answers := Some (raw_answers ! qid)\<rparr>) sessions)
      else (sessions, Some IndexError))"

definition answer_batch_questions ::
  "engine \<Rightarrow> session pydict \<Rightarrow> nat option \<Rightarrow> nat option \<Rightarrow> round_result" where
  "answer_batch_questions llm sessions n best_of =
     (let n = (case n of None \<Rightarrow> 7 | Some v \<Rightarrow> v);
          best_of = (case best_of of None \<Rightarrow> 10 | Some v \<Rightarrow> v)
      in case round1_prompts (map snd sessions) of
           Inl e \<Rightarrow>
             \<lparr>sessions_after = sessions, raised = Some e, submitted = [], printed = []\<rparr>
         | Inr prompts \<Rightarrow>
             (let out = ''Generating answers...'' @ nl;
                  req = (prompts, SamplingParams n best_of 1024)
              in case llm req of
                   Inl e \<Rightarrow>
                     \<lparr>sessions_after = sessions, raised = Some e, submitted = [req],
                      printed = out\<rparr>
                 | Inr raw_answers \<Rightarrow>
                     (let (sessions', err) =
                            attach_answers (enumerate 0 (map fst sessions)) raw_answers sessions
                      in \<lparr>sessions_after = sessions', raised = err, submitted = [req],
                          printed = out\<rparr>)))"

text \<open>Round 2: the prompt text of one session, and the same three steps.\<close>

definition final_prompt_text :: "string \<Rightarrow> string" where
  "final_prompt_text session_history =
     session_history @ nl @ repeat_str CHR ''~'' 10 @ nl @ nl
     @ ''Please provide the CORRECT final answer based on the question and the independent answers above. Explain why please!''
     @ nl"

fun round2_prompts :: "session list \<Rightarrow> error + string list" where
  "round2_prompts [] = Inr []"
| "round2_prompts (s # rest) =
     (case formatted_output s of
        None \<Rightarrow> Inl (KeyError ''formatted_output'')
      | Some session_history \<Rightarrow>
          (case build_conversation_prompt [final_prompt_text session_history] [] of
             Inl e \<Rightarrow> Inl e
           | Inr prompt \<Rightarrow>
               (case round2_prompts rest of
                  Inl e \<Rightarrow> Inl e
                | Inr prompts \<Rightarrow> Inr (prompt # prompts))))"

fun attach_final_answers ::
  "(nat \<times> string) list \<Rightarrow> string list list \<Rightarrow> session pydict \<Rightarrow> session pydict \<times> error option"
where
  "attach_final_answers [] raw_final_answers sessions = (sessions, None)"
| "attach_final_answers ((qid, question_id) # rest) raw_final_answers sessions =
     (if qid < length raw_final_answers
      then attach_final_answers rest raw_final_answers
             (AList.map_entry question_id
                (\<lambda>s. s\<lparr>final_answers := Some (raw_final_answers ! qid)\<rparr>) sessions)
      else (sessions, Some IndexError))"

definition answer_batch_questions_final ::
  "engine \<Rightarrow> session pydict \<Rightarrow> nat option \<Rightarrow> nat option \<Rightarrow> round_result" where
  "answer_batch_questions_final llm sessions n best_of =
     (let n = (case n of None \<Rightarrow> 1 | Some v \<Rightarrow> v);
          best_of = (case best_of of None \<Rightarrow> 3 | Some v \<Rightarrow> v)
      in case round2_prompts (map snd sessions) of
           Inl e \<Rightarrow>
             \<lparr>sessions_after = sessions, raised = Some e, submitted = [], printed = []\<rparr>
         | Inr prompts \<Rightarrow>
             (let out = ''Generating final answers...'' @ nl;
                  req = (prompts, SamplingParams n best_of 1024)
              in case llm req of
                   Inl e \<Rightarrow>
                     \<lparr>sessions_after = sessions, raised = Some e, submitted = [req],
                      printed = out\<rparr>
                 | Inr raw_final_answers \<Rightarrow>
                     (let (sessions', err) =
                            attach_final_answers (enumerate 0 (map fst sessions))
                              raw_final_answers sessions
                      in \<lparr>sessions_after = sessions', raised = err, submitted = [req],
                          printed = out\<rparr>)))"

section \<open>Batch driver (one iteration of the \<open>while True\<close> loop of \<open>__main__\<close>)\<close>

text \<open>
  \<open>raw_questions\<close> is what \<open>json.load\<close> gave for \<open>questions.json\<close>; the key press
  that \<open>input\<close> waits for and the reading of the file are left to the caller. Every
  exception is unhandled and ends the program; the result keeps the files, the requests
  submitted and the text printed up to that point.
\<close>

record run_result =
  files :: filesystem
  run_raised :: "error option"
  run_submitted :: "request list"
  run_printed :: string

definition main_iteration :: "engine \<Rightarrow> question pydict \<Rightarrow> filesystem \<Rightarrow> run_result" where
  "main_iteration llm raw_questions fs =
     (let out = ''Press enter to start answering questions...'' in
      case generate_sessions raw_questions of
        (Inl e, out1) \<Rightarrow>
          \<lparr>files = fs, run_raised = Some e, run_submitted = [], run_printed = out @ out1\<rparr>
      | (Inr sessions, out1) \<Rightarrow>
          let out = out @ out1;
              r1 = answer_batch_questions llm sessions (Some 7) (Some 10);
              out = out @ printed r1;
              reqs = submitted r1
          in if raised r1 \<noteq> None
             then \<lparr>files = fs, run_raised = raised r1, run_submitted = reqs, run_printed = out\<rparr>
             else
               let (sessions, err) = format_session_outputs (sessions_after r1) in
               if err \<noteq> None
               then \<lparr>files = fs, run_raised = err, run_submitted = reqs, run_printed = out\<rparr>
               else
                 let (fs, err) = save_file sessions (Some ''answers.txt'') fs in
                 if err \<noteq> None
                 then \<lparr>files = fs, run_raised = err, run_submitted = reqs, run_printed = out\<rparr>
                 else
                   let r2 = answer_batch_questions_final llm sessions (Some 1) (Some 3);
                       out = out @ printed r2;
                       reqs = reqs @ submitted r2
                   in if raised r2 \<noteq> None
                      then \<lparr>files = fs, run_raised = raised r2, run_submitted = reqs,
                            run_printed = out\<rparr>
                      else
                        let (sessions, err) = format_session_outputs (sessions_after r2) in
                        if err \<noteq> None
                        then \<lparr>files = fs, run_raised = err, run_submitted = reqs,
                              run_printed = out\<rparr>
                        else
                          let (fs, err) = save_file sessions (Some ''answers_final.txt'') fs
                          in \<lparr>files = fs, run_raised = err, run_submitted = reqs,
                              run_printed = out\<rparr>)"

section \<open>Interactive driver (\<open>chat.py\<close>)\<close>

text \<open>
  The terminal and the engine are the environment of the loop. A call of \<open>input\<close>
  returns a line or is interrupted by Ctrl-C (\<open>KeyboardInterrupt\<close>); when nothing is left to
  read it raises \<open>EOFError\<close>. A call of \<open>llm.generate\<close> with \<open>n=1\<close> returns the text of its
  one output or is interrupted by Ctrl-C; the replies are consumed in order, and the
  engine fails when none is left.
\<close>

datatype input_event = Line string | Interrupt

datatype generation = Response string | Interrupted

record terminal =
  stdin :: "input_event list"
  replies :: "generation list"
  stdout :: string
  requested :: "(string \<times> sampling_params) list"

record conversation =
  user_messages :: "string list"
  bot_messages :: "string list"

text \<open>The ANSI constants at the top of the script.\<close>

definition RED :: string where "RED = CHR 0x1B # ''[91m''"
definition BLUE :: string where "BLUE = CHR 0x1B # ''[94m''"
definition BOLD :: string where "BOLD = CHR 0x1B # ''[1m''"
definition RESET :: string where "RESET = CHR 0x1B # ''[0m''"
definition USER :: string where "USER = BOLD @ RED @ ''User'' @ RESET"
definition BOT :: string where "BOT = BOLD @ BLUE @ ''Bot'' @ RESET"

text \<open>\<open>sub in s\<close> for strings.\<close>

fun str_contains :: "string \<Rightarrow> string \<Rightarrow> bool" where
  "str_contains sub [] = (sub = [])"
| "str_contains sub (c # cs) = (prefix sub (c # cs) \<or> str_contains sub cs)"

text \<open>
  \<open>multiline_input\<close>: the loop state is the prompt and the lines read so far; \<open>input\<close>
  writes its prompt to the standard output. The result comes with what is left of the
  input and the standard output.
\<close>

fun multiline_input ::
  "string \<Rightarrow> string list \<Rightarrow> input_event list \<Rightarrow> string
     \<Rightarrow> (error + string) \<times> input_event list \<times> string"
where
  "multiline_input prompt lines [] out =
     (Inl EOFError, [], out @ (if length lines > 0 then [] else prompt))"
| "multiline_input prompt lines (ev # rest) out =
     (let prompt = (if length lines > 0 then [] else prompt);
          out = out @ prompt
      in case ev of
           Interrupt \<Rightarrow> (Inl KeyboardInterrupt, rest, out)
         | Line line \<Rightarrow>
             if line = [] then (Inr (join nl lines), rest, out)
             else multiline_input prompt (lines @ [line]) rest out)"

text \<open>
  One pass through the body of \<open>while True\<close>. \<open>Continue\<close> is the end of the body or a
  \<open>continue\<close>, \<open>Break\<close> the \<open>break\<close>, and \<open>Crash e\<close> an exception that the \<open>except
  KeyboardInterrupt\<close> clause does not catch and that ends the program.
\<close>

datatype turn_end = Continue | Break | Crash error

definition interrupt_message :: string where
  "interrupt_message =
     ''Keyboard interrupt caught. Type CLEAR to clear the conversation or EXIT to exit the program.''"

definition turn :: "conversation \<Rightarrow> terminal \<Rightarrow> turn_end \<times> conversation \<times> terminal" where
  "turn c t =
     (let (r, rest, out) =
            multiline_input
              (nl @ nl @ USER @ '' ['' @ str_nat (length (user_messages c)) @ '']: '')
              [] (stdin t) (stdout t);
          t = t\<lparr>stdin := rest, stdout := out\<rparr>
      in case r of
           Inl e \<Rightarrow>
             if e = KeyboardInterrupt
             then (Continue, c, t\<lparr>stdout := stdout t @ interrupt_message @ nl\<rparr>)
             else (Crash e, c, t)
         | Inr user_message \<Rightarrow>
             if str_contains ''CLEAR'' user_message
             then (Continue, \<lparr>user_messages = [], bot_messages = []\<rparr>,
                   t\<lparr>stdout := stdout t @ ''Conversation cleared'' @ nl\<rparr>)
             else if str_contains ''EXIT'' user_message
             then (Break, c, t\<lparr>stdout := stdout t @ ''Exiting...'' @ nl\<rparr>)
             else
               let c = c\<lparr>user_messages := user_messages c @ [user_message]\<rparr> in
               case build_conversation_prompt (user_messages c) (bot_messages c) of
                 Inl e \<Rightarrow> (Crash e, c, t)
               | Inr prompt \<Rightarrow>
                   let t = t\<lparr>requested := requested t @ [(prompt, SamplingParams 1 5 512)]\<rparr>
                   in case replies t of
                        [] \<Rightarrow> (Crash EngineError, c, t)
                      | Interrupted # later \<Rightarrow>
                          (Continue, c,
                           t\<lparr>replies := later, stdout := stdout t @ interrupt_message @ nl\<rparr>)
                      | Response bot_message # later \<Rightarrow>
                          (Continue,
                           c\<lparr>bot_messages := bot_messages c @ [bot_message]\<rparr>,
                           t\<lparr>replies := later,
                             stdout := stdout t @ nl @ nl @ BOT @ '' [''
                               @ str_nat (length (bot_messages c)) @ '']: '' @ bot_message @ nl\<rparr>))"

text \<open>The conversation the script starts with.\<close>

definition initial_conversation :: conversation where
  "initial_conversation =
     \<lparr>user_messages =
        [''I am Csabi, a DPhil student at Oxford University. I am interviewing you for a Quant Researcher role and you will have to provide the solutions by thinking step by step. I repeat, always plan your solution step by step and illustrate your thinking process with example if applicable.''],
      bot_messages =
        [''Hello, I am a chatbot using a finetuned GPT-4 Instruct baseline. I will be interviewing you for a Quant Researcher role. I will assist you'']\<rparr>"

text \<open>
  The \<open>while True\<close> loop itself. Every pass reads at least one event from the terminal
  or ends the program, so on a finite input the loop ends: with \<open>Break\<close>, or with the
  exception that nothing catches (\<open>EOFError\<close> when the input is exhausted).
\<close>

function run :: "conversation \<Rightarrow> terminal \<Rightarrow> turn_end \<times> conversation \<times> terminal" where
  "run c t =
     (if fst (turn c t) = Continue
      then run (fst (snd (turn c t))) (snd (snd (turn c t)))
      else turn c t)"
  by pat_completeness auto
termination
proof (relation "measure (\<lambda>(c, t). length (stdin t))")
  show "wf (measure (\<lambda>(c, t). length (stdin t)))"
    by simp
next
  fix c :: conversation and t :: terminal
  assume continue: "fst (turn c t) = Continue"
  have consumed: "length (fst (snd (multiline_input p ls inp out))) < length inp"
    if "inp \<noteq> []" for p ls inp out
    using that
  proof (induction inp arbitrary: p ls out)
    case Nil
    then show ?case by simp
  next
    case (Cons ev rest)
    show ?case
    proof (cases ev)
      case Interrupt
      then show ?thesis by simp
    next
      case (Line line)
      show ?thesis
      proof (cases "line = [] \<or> rest = []")
        case True
        then show ?thesis
          by (auto simp: Line Let_def)
      next
        case False
        with Cons.IH [of "if length ls > 0 then [] else p" "ls @ [line]"
            "out @ (if length ls > 0 then [] else p)"]
        show ?thesis
          by (simp add: Line Let_def)
      qed
    qed
  qed
  have rest: "stdin (snd (snd (turn c t))) = fst (snd (multiline_input
      (nl @ nl @ USER @ '' ['' @ str_nat (length (user_messages c)) @ '']: '')
      [] (stdin t) (stdout t)))"
    by (simp add: turn_def Let_def case_prod_beta split: sum.splits list.splits generation.splits)
  have "stdin t \<noteq> []"
  proof
    assume "stdin t = []"
    then have "fst (turn c t) = Crash EOFError"
      by (simp add: turn_def)
    with continue show False by simp
  qed
  from consumed [OF this] rest
  show "((fst (snd (turn c t)), snd (snd (turn c t))), (c, t))
      \<in> measure (\<lambda>(c, t). length (stdin t))"
    by (simp add: case_prod_beta)
qed

declare run.simps [simp del]

section \<open>The specification's wording of the two text formats\<close>

text \<open>
  The transcript as the specification words it, to be compared with \<open>render_session\<close>:
  the formatted question text followed by two newlines, then for each answer candidate a
  delimiter line containing \<open>ANSWER {index}\<close>, the candidate text and two trailing
  newlines, then the same pattern with the label \<open>FINAL ANSWER\<close> for each final-answer
  candidate. The delimiter lines themselves are those of the code.
\<close>

definition transcript_as_specified :: "session \<Rightarrow> string" where
  "transcript_as_specified s =
     question_formatted s @ nl @ nl
     @ concat (map (\<lambda>p. repeat_str CHR ''-'' 45 @ ''[ANSWER '' @ str_nat (fst p) @ '']''
                       @ repeat_str CHR ''-'' 45 @ nl @ snd p @ nl @ nl)
                 (enumerate 0 (case answers s of None \<Rightarrow> [] | Some candidates \<Rightarrow> candidates)))
     @ concat (map (\<lambda>f. repeat_str CHR ''-'' 43 @ ''[FINAL ANSWER]''
                       @ repeat_str CHR ''-'' 43 @ nl @ f @ nl @ nl)
                 (case final_answers s of None \<Rightarrow> [] | Some finals \<Rightarrow> finals))"

text \<open>
  The saved file as the specification words it, to be compared with \<open>save_file\<close>: for
  every session in iteration order, the delimited header \<open>Question #{ordinal}
  (ID{question_id})\<close> followed by the session's transcript, and nothing else. The header
  with its two delimiter lines is that of the code.
\<close>

definition file_as_specified :: "session pydict \<Rightarrow> string" where
  "file_as_specified sessions =
     concat (map (\<lambda>e. repeat_str CHR ''='' 100 @ nl
                       @ ''Question #'' @ str_nat (fst e) @ '' (ID'' @ fst (snd e) @ '')'' @ nl
                       @ repeat_str CHR ''='' 100 @ nl
                       @ (case formatted_output (snd (snd e)) of
                            None \<Rightarrow> [] | Some transcript \<Rightarrow> transcript))
                 (enumerate 0 sessions))"

section \<open>Auxiliary notions for the proofs about the formatter\<close>

text \<open>
  What \<open>format_session_outputs\<close> does to one entry whose session has answers, and the test
  that decides whether the loop gets past an entry.
\<close>

definition rendered :: "session \<Rightarrow> string" where
  "rendered s = (case render_session s of Inl _ \<Rightarrow> [] | Inr out \<Rightarrow> out)"

definition write_transcript :: "string \<times> session \<Rightarrow> string \<times> session" where
  "write_transcript e = (fst e, (snd e)\<lparr>formatted_output := Some (rendered (snd e))\<rparr>)"

definition has_answers :: "string \<times> session \<Rightarrow> bool" where
  "has_answers e = (answers (snd e) \<noteq> None)"

section \<open>Auxiliary notions for the proofs about session creation\<close>

text \<open>The entry \<open>generate_sessions\<close> adds for one question whose text is present.\<close>

definition formatted_question :: "question \<Rightarrow> string" where
  "formatted_question q = (case format_question q of Inl _ \<Rightarrow> [] | Inr qf \<Rightarrow> qf)"

definition new_session :: "string \<times> question \<Rightarrow> string \<times> session" where
  "new_session e =
     (fst e, \<lparr>question_raw = snd e, question_formatted = formatted_question (snd e),
              answers = None, final_answers = None, formatted_output = None\<rparr>)"

section \<open>Reading a transcript back\<close>

text \<open>
  To say which delimiter lines a transcript contains as a text: its lines (the pieces
  between newline characters, as \<open>str.split("\\n")\<close> gives them), the test for a line
  that starts like a delimiter (43 dashes, which both kinds of delimiter start with), and
  the \<open>[ANSWER i]\<close> delimiter line itself.
\<close>

fun split_lines :: "string \<Rightarrow> string list" where
  "split_lines [] = [[]]"
| "split_lines (c # cs) =
     (if c = CHR 0x0A then [] # split_lines cs
      else (case split_lines cs of [] \<Rightarrow> [[c]] | l # ls \<Rightarrow> (c # l) # ls))"

definition delimiter_like :: "string \<Rightarrow> bool" where
  "delimiter_like line = prefix (replicate 43 CHR ''-'') line"

definition answer_delimiter :: "nat \<Rightarrow> string" where
  "answer_delimiter i =
     replicate 45 CHR ''-'' @ ''[ANSWER '' @ str_nat i @ '']'' @ replicate 45 CHR ''-''"

section \<open>Facts about the runtime helpers\<close>

lemma str_nat_digit: "n < 10 \<Longrightarrow> str_nat n = [digit_char n]"
  by (simp add: str_nat.simps)

lemma enumerate_as_indices:
  "enumerate n xs = map (\<lambda>i. (n + i, xs ! i)) [0..<length xs]"
  by (rule nth_equalityI) (simp_all add: nth_enumerate_eq)

section \<open>The prompt builder\<close>

lemma fold_extend_turn:
  "fold extend_turn zs acc = acc @ concat (map (\<lambda>p. [INST_START, fst p, INST_END, snd p, EOS]) zs)"
  by (induction zs arbitrary: acc) (simp_all add: extend_turn_def)

lemma zip_as_indices:
  "zip xs ys = map (\<lambda>i. (xs ! i, ys ! i)) [0..<min (length xs) (length ys)]"
  by (rule nth_equalityI) simp_all

lemma join_cons: "ys \<noteq> [] \<Longrightarrow> join sep (x # ys) = x @ sep @ join sep ys"
  by (cases ys) simp_all

lemma join_snoc: "xs \<noteq> [] \<Longrightarrow> join sep (xs @ [y]) = join sep xs @ sep @ y"
  by (induction sep xs rule: join.induct) simp_all

lemma last_as_nth: "length U = length B + 1 \<Longrightarrow> last U = U ! length B"
  by (cases U rule: rev_cases) (simp_all add: nth_append)

lemma prompt_parts_closed:
  "length U = length B + 1 \<Longrightarrow>
   fold extend_turn (zip U B) [BOS] =
     [BOS] @ concat (map (\<lambda>i. [INST_START, U ! i, INST_END, B ! i, EOS]) [0..<length B])"
  by (simp add: fold_extend_turn zip_as_indices [of U B] comp_def)

text \<open>
  Claim C1. Whenever there is exactly one more user message than bot messages, the prompt
  builder returns the single-space join of \<open><s>\<close>, then for every index \<open>i\<close> below the number of
  bot messages the five tokens \<open>[INST]\<close>, \<open>U[i]\<close>, \<open>[/INST]\<close>, \<open>B[i]\<close>, \<open></s>\<close>, then
  \<open>[INST]\<close>, the final user message and \<open>[/INST]\<close>. The result starts with \<open><s>\<close> and ends
  with the final user message followed by \<open> [/INST]\<close>; for \<open>U = ["Hi"]\<close>, \<open>B = []\<close> it is
  \<open><s> [INST] Hi [/INST]\<close>.
\<close>
theorem build_conversation_prompt_valid:
  assumes "length U = length B + 1"
  shows "\<exists>out. build_conversation_prompt U B = Inr out
     \<and> out = join '' '' ([''<s>'']
               @ concat (map (\<lambda>i. [''[INST]'', U ! i, ''[/INST]'', B ! i, ''</s>'']) [0..<length B])
               @ [''[INST]'', U ! length B, ''[/INST]''])
     \<and> prefix ''<s>'' out
     \<and> suffix (U ! length B @ '' [/INST]'') out
     \<and> build_conversation_prompt [''Hi''] [] = Inr ''<s> [INST] Hi [/INST]''"
proof -
  define turns where
    "turns = concat (map (\<lambda>i. [''[INST]'', U ! i, ''[/INST]'', B ! i, ''</s>'']) [0..<length B])"
  define out where
    "out = join '' '' ([''<s>''] @ turns @ [''[INST]'', U ! length B, ''[/INST]''])"
  from assms obtain u us where U: "U = u # us"
    by (cases U) simp_all
  have parts: "fold extend_turn (zip U B) [BOS] = [''<s>''] @ turns"
    using prompt_parts_closed [OF assms]
    by (simp add: turns_def BOS_def INST_START_def INST_END_def EOS_def)
  have run: "build_conversation_prompt U B = Inr out"
    using assms last_as_nth [OF assms] unfolding build_conversation_prompt_def Let_def parts
    by (simp add: U out_def INST_START_def INST_END_def)
  have starts: "prefix ''<s>'' out"
    unfolding out_def by (simp add: join_cons)
  have "out = join '' '' (([''<s>''] @ turns @ [''[INST]'', U ! length B]) @ [''[/INST]''])"
    by (simp add: out_def)
  also have "\<dots> = join '' '' (([''<s>''] @ turns @ [''[INST]'']) @ [U ! length B]) @ '' [/INST]''"
    by (subst join_snoc) simp_all
  also have "\<dots> = (join '' '' ([''<s>''] @ turns @ [''[INST]'']) @ '' '') @ U ! length B @ '' [/INST]''"
    by (subst join_snoc) simp_all
  finally have ends: "suffix (U ! length B @ '' [/INST]'') out"
    by (metis suffixI)
  have example: "build_conversation_prompt [''Hi''] [] = Inr ''<s> [INST] Hi [/INST]''"
    by (simp add: build_conversation_prompt_def extend_turn_def BOS_def INST_START_def INST_END_def)
  show ?thesis
    using run starts ends example unfolding out_def turns_def by blast
qed

theorem build_conversation_prompt_valid_witness:
  "length [''Hi'', ''And you?''] = length [''Hello''] + 1
   \<and> build_conversation_prompt [''Hi'', ''And you?''] [''Hello'']
       = Inr ''<s> [INST] Hi [/INST] Hello </s> [INST] And you? [/INST]''"
  using build_conversation_prompt_valid [of "[''Hi'', ''And you?'']" "[''Hello'']"]
  by simp

text \<open>
  Claim C2. Whenever the number of user messages is not the number of bot messages plus
  one, the prompt builder raises the \<open>ValueError\<close> of its length check and returns no
  string; \<open>U = ["Hi"]\<close>, \<open>B = ["Hello"]\<close> is such a case.
\<close>
theorem build_conversation_prompt_invalid:
  "length U \<noteq> length B + 1 \<Longrightarrow>
     build_conversation_prompt U B
       = Inl (ValueError ''User messages and bot messages must be of equal length'')
     \<and> (\<forall>out. build_conversation_prompt U B \<noteq> Inr out)
     \<and> build_conversation_prompt [''Hi''] [''Hello'']
       = Inl (ValueError ''User messages and bot messages must be of equal length'')"
proof -
  assume mismatch: "length U \<noteq> length B + 1"
  then have raised: "build_conversation_prompt U B
       = Inl (ValueError ''User messages and bot messages must be of equal length'')"
    by (simp add: build_conversation_prompt_def)
  then have "\<forall>out. build_conversation_prompt U B \<noteq> Inr out"
    by simp
  moreover have "build_conversation_prompt [''Hi''] [''Hello'']
       = Inl (ValueError ''User messages and bot messages must be of equal length'')"
    by (simp add: build_conversation_prompt_def)
  ultimately show ?thesis
    using raised by blast
qed

theorem build_conversation_prompt_invalid_witness:
  "length [''a'', ''b'', ''c''] \<noteq> length [''x''] + 1
   \<and> build_conversation_prompt [''a'', ''b'', ''c''] [''x'']
       = Inl (ValueError ''User messages and bot messages must be of equal length'')"
  using build_conversation_prompt_invalid [of "[''a'', ''b'', ''c'']" "[''x'']"]
  by simp

section \<open>The output formatter\<close>

lemma fold_append_answer:
  "fold append_answer ps acc =
     acc @ concat (map (\<lambda>p. repeat_str CHR ''-'' 45 @ ''[ANSWER '' @ str_nat (fst p) @ '']''
                          @ repeat_str CHR ''-'' 45 @ nl @ snd p @ nl @ nl @ nl) ps)"
  by (induction ps arbitrary: acc) (simp_all add: append_answer_def)

lemma fold_append_final_answer:
  "fold append_final_answer (enumerate n finals) acc =
     acc @ concat (map (\<lambda>f. repeat_str CHR ''-'' 43 @ ''[FINAL ANSWER]''
                          @ repeat_str CHR ''-'' 43 @ nl @ f @ nl @ nl @ nl) finals)"
  by (induction finals arbitrary: n acc) (simp_all add: append_final_answer_def)

lemma render_session_closed:
  assumes "answers s = Some candidates"
  shows "render_session s = Inr (question_formatted s @ nl @ nl @ nl
     @ concat (map (\<lambda>i. replicate 45 CHR ''-'' @ ''[ANSWER '' @ str_nat i @ '']''
                 @ replicate 45 CHR ''-'' @ nl @ candidates ! i @ nl @ nl @ nl)
               [0..<length candidates])
     @ (case final_answers s of
          None \<Rightarrow> []
        | Some finals \<Rightarrow>
            concat (map (\<lambda>f. replicate 43 CHR ''-'' @ ''[FINAL ANSWER]''
                      @ replicate 43 CHR ''-'' @ nl @ f @ nl @ nl @ nl) finals)))"
  using assms
  by (simp add: render_session_def fold_append_answer fold_append_final_answer
      enumerate_as_indices [of 0 candidates] comp_def repeat_str_def
      split: option.splits)

lemma render_session_no_answers:
  "answers s = None \<Longrightarrow> render_session s = Inl (KeyError ''answers'')"
  by (simp add: render_session_def)

lemma render_session_cases:
  "render_session s = Inl e \<Longrightarrow> answers s = None \<and> e = KeyError ''answers''"
  by (auto simp: render_session_def Let_def split: option.splits)

lemma format_session_outputs_char:
  "format_session_outputs sessions =
     (map write_transcript (takeWhile has_answers sessions) @ dropWhile has_answers sessions,
      if dropWhile has_answers sessions = [] then None else Some (KeyError ''answers''))"
proof (induction sessions)
  case Nil
  show ?case by simp
next
  case (Cons e sessions)
  obtain question_id s where e: "e = (question_id, s)" by (cases e)
  show ?case
  proof (cases "answers s")
    case None
    then show ?thesis
      by (simp add: e has_answers_def render_session_no_answers)
  next
    case (Some candidates)
    then obtain out where out: "render_session s = Inr out"
      by (auto simp: render_session_def Let_def)
    with Some Cons.IH show ?thesis
      by (simp add: e has_answers_def write_transcript_def rendered_def)
  qed
qed

lemma render_session_formatted_output_update [simp]:
  "render_session (s\<lparr>formatted_output := x\<rparr>) = render_session s"
  by (simp add: render_session_def Let_def split: option.splits)

lemma format_session_outputs_length:
  "length (fst (format_session_outputs sessions)) = length sessions"
proof -
  have "length (takeWhile has_answers sessions) + length (dropWhile has_answers sessions)
          = length sessions"
    by (metis length_append takeWhile_dropWhile_id)
  then show ?thesis
    by (simp add: format_session_outputs_char)
qed

lemma format_session_outputs_nth:
  assumes "\<forall>j \<le> i. answers (snd (sessions ! j)) \<noteq> None"
    and "i < length sessions"
  shows "fst (format_session_outputs sessions) ! i = write_transcript (sessions ! i)"
proof -
  have "Suc i \<le> length (takeWhile has_answers sessions)"
  proof (rule length_takeWhile_less_P_nth)
    fix j assume "j < Suc i"
    with assms(1) show "has_answers (sessions ! j)"
      by (simp add: has_answers_def)
  next
    from assms(2) show "Suc i \<le> length sessions" by simp
  qed
  then have reached: "i < length (takeWhile has_answers sessions)"
    by simp
  then have "fst (format_session_outputs sessions) ! i
      = write_transcript (takeWhile has_answers sessions ! i)"
    by (simp add: format_session_outputs_char nth_append)
  with reached show ?thesis
    by (simp add: takeWhile_nth)
qed

lemma format_session_outputs_raises:
  "(snd (format_session_outputs sessions) = None)
     = (\<forall>e \<in> set sessions. answers (snd e) \<noteq> None)"
  by (simp add: format_session_outputs_char dropWhile_eq_Nil_conv has_answers_def)

text \<open>
  Claim C3, as amended. A session that has answer candidates, and that the loop reaches
  (every session before it in the store has answer candidates too), gets as its
  transcript exactly: the formatted question text followed by three newline characters,
  then for each answer candidate in order a delimiter line of 45 dashes,
  \<open>[ANSWER {index}]\<close> and 45 dashes, the candidate text and three newline characters, and,
  only when the session has final-answer candidates, the same pattern for each of them
  with a delimiter of 43 dashes, \<open>[FINAL ANSWER]\<close> and 43 dashes. No other field of the
  session changes, and the call raises nothing exactly when every session of the store
  has answer candidates.
\<close>

theorem format_session_outputs_transcript:
  assumes "\<forall>j \<le> i. answers (snd (sessions ! j)) \<noteq> None"
    and "i < length sessions"
    and "sessions ! i = (question_id, s)"
    and "answers s = Some candidates"
  shows "fst (format_session_outputs sessions) ! i =
        (question_id, s\<lparr>formatted_output := Some (
           question_formatted s @ nl @ nl @ nl
           @ concat (map (\<lambda>j. replicate 45 CHR ''-'' @ ''[ANSWER '' @ str_nat j @ '']''
                             @ replicate 45 CHR ''-'' @ nl @ candidates ! j @ nl @ nl @ nl)
                       [0..<length candidates])
           @ (case final_answers s of
                None \<Rightarrow> []
              | Some finals \<Rightarrow>
                  concat (map (\<lambda>f. replicate 43 CHR ''-'' @ ''[FINAL ANSWER]''
                                  @ replicate 43 CHR ''-'' @ nl @ f @ nl @ nl @ nl)
                            finals)))\<rparr>)
    \<and> ((snd (format_session_outputs sessions) = None)
         = (\<forall>e \<in> set sessions. answers (snd e) \<noteq> None))"
proof -
  have "rendered s = question_formatted s @ nl @ nl @ nl
           @ concat (map (\<lambda>j. replicate 45 CHR ''-'' @ ''[ANSWER '' @ str_nat j @ '']''
                             @ replicate 45 CHR ''-'' @ nl @ candidates ! j @ nl @ nl @ nl)
                       [0..<length candidates])
           @ (case final_answers s of
                None \<Rightarrow> []
              | Some finals \<Rightarrow>
                  concat (map (\<lambda>f. replicate 43 CHR ''-'' @ ''[FINAL ANSWER]''
                                  @ replicate 43 CHR ''-'' @ nl @ f @ nl @ nl @ nl)
                            finals))"
    by (simp add: rendered_def render_session_closed [OF assms(4)])
  with format_session_outputs_nth [OF assms(1,2)] assms(3) show ?thesis
    by (simp add: write_transcript_def format_session_outputs_raises)
qed

theorem format_session_outputs_transcript_witness:
  "fst (format_session_outputs
     [(''q1'', \<lparr>question_raw = \<lparr>question_text = Some ''Q'', options = None\<rparr>,
               question_formatted = ''Q'', answers = Some [''A'', ''B''],
               final_answers = Some [''F''], formatted_output = None\<rparr>),
      (''q2'', \<lparr>question_raw = \<lparr>question_text = Some ''R'', options = None\<rparr>,
               question_formatted = ''R'', answers = None,
               final_answers = None, formatted_output = None\<rparr>)]) ! 0 =
     (''q1'', \<lparr>question_raw = \<lparr>question_text = Some ''Q'', options = None\<rparr>,
               question_formatted = ''Q'', answers = Some [''A'', ''B''],
               final_answers = Some [''F''],
               formatted_output = Some (''Q'' @ nl @ nl @ nl
                 @ replicate 45 CHR ''-'' @ ''[ANSWER 0]'' @ replicate 45 CHR ''-'' @ nl
                 @ ''A'' @ nl @ nl @ nl
                 @ replicate 45 CHR ''-'' @ ''[ANSWER 1]'' @ replicate 45 CHR ''-'' @ nl
                 @ ''B'' @ nl @ nl @ nl
                 @ replicate 43 CHR ''-'' @ ''[FINAL ANSWER]'' @ replicate 43 CHR ''-'' @ nl
                 @ ''F'' @ nl @ nl @ nl)\<rparr>)
   \<and> snd (format_session_outputs
     [(''q1'', \<lparr>question_raw = \<lparr>question_text = Some ''Q'', options = None\<rparr>,
               question_formatted = ''Q'', answers = Some [''A'', ''B''],
               final_answers = Some [''F''], formatted_output = None\<rparr>),
      (''q2'', \<lparr>question_raw = \<lparr>question_text = Some ''R'', options = None\<rparr>,
               question_formatted = ''R'', answers = None,
               final_answers = None, formatted_output = None\<rparr>)]) \<noteq> None"
proof -
  let ?s = "\<lparr>question_raw = \<lparr>question_text = Some ''Q'', options = None\<rparr>,
               question_formatted = ''Q'', answers = Some [''A'', ''B''],
               final_answers = Some [''F''], formatted_output = None\<rparr>"
  let ?S = "[(''q1'', ?s),
      (''q2'', \<lparr>question_raw = \<lparr>question_text = Some ''R'', options = None\<rparr>,
               question_formatted = ''R'', answers = None,
               final_answers = None, formatted_output = None\<rparr>)]"
  have reached: "\<forall>j \<le> 0. answers (snd (?S ! j)) \<noteq> None" by simp
  have index: "0 < length ?S" by simp
  have entry: "?S ! 0 = (''q1'', ?s)" by simp
  have candidates: "answers ?s = Some [''A'', ''B'']" by simp
  from format_session_outputs_transcript [OF reached index entry candidates]
  show ?thesis
    by (simp add: str_nat_digit digit_char_def del: format_session_outputs.simps)
qed

text \<open>
  Claim C3 as stated, with two newlines after the question text and after each candidate,
  fails: for a session with the question text \<open>Q\<close> and the single answer \<open>A\<close>, the
  transcript the code writes is not the one the specification words.
\<close>
theorem format_session_outputs_transcript_counterexample:
  "formatted_output (snd (hd (fst (format_session_outputs
     [(''q1'', \<lparr>question_raw = \<lparr>question_text = Some ''Q'', options = None\<rparr>,
               question_formatted = ''Q'', answers = Some [''A''],
               final_answers = None, formatted_output = None\<rparr>)]))))
   \<noteq> Some (transcript_as_specified
       \<lparr>question_raw = \<lparr>question_text = Some ''Q'', options = None\<rparr>,
        question_formatted = ''Q'', answers = Some [''A''],
        final_answers = None, formatted_output = None\<rparr>)"
  by (simp add: render_session_def transcript_as_specified_def append_answer_def nl_def)

text \<open>
  Claim C4. \<open>format_session_outputs\<close> is idempotent: a second call on the store left by
  a first call, with nothing changed in between, leaves the same store (so every
  transcript is byte-identical) and ends the same way.
\<close>
theorem format_session_outputs_idempotent:
  "format_session_outputs (fst (format_session_outputs sessions))
     = format_session_outputs sessions"
proof (induction sessions)
  case Nil
  show ?case by simp
next
  case (Cons e sessions)
  obtain question_id s where e: "e = (question_id, s)" by (cases e)
  show ?case
  proof (cases "render_session s")
    case (Inl err)
    then show ?thesis by (simp add: e)
  next
    case (Inr out)
    obtain rest' err where rest: "format_session_outputs sessions = (rest', err)"
      by (cases "format_session_outputs sessions")
    with Cons.IH have "format_session_outputs rest' = (rest', err)"
      by simp
    with Inr rest show ?thesis
      by (simp add: e)
  qed
qed

text \<open>
  Claim C5. For a session with \<open>k\<close> answer candidates and no final-answer candidates (and
  that the loop reaches), the transcript written by \<open>format_session_outputs\<close> is the
  question header followed by exactly \<open>k\<close> blocks and nothing else; the \<open>j\<close>-th block is the
  \<open>[ANSWER j]\<close> delimiter line followed by the \<open>j\<close>-th candidate, so the labels are
  \<open>0, ..., k - 1\<close> in order, and there is no \<open>[FINAL ANSWER]\<close> block.
\<close>

theorem format_session_outputs_answer_blocks:
  assumes "\<forall>j \<le> i. answers (snd (sessions ! j)) \<noteq> None"
    and "i < length sessions"
    and "sessions ! i = (question_id, s)"
    and "answers s = Some candidates"
    and "final_answers s = None \<or> final_answers s = Some []"
  shows "\<exists>blocks.
      formatted_output (snd (fst (format_session_outputs sessions) ! i))
        = Some (question_formatted s @ nl @ nl @ nl @ concat blocks)
    \<and> length blocks = length candidates
    \<and> (\<forall>j < length candidates. blocks ! j =
          replicate 45 CHR ''-'' @ ''[ANSWER '' @ str_nat j @ '']'' @ replicate 45 CHR ''-'' @ nl
          @ candidates ! j @ nl @ nl @ nl)"
proof -
  define blocks where "blocks = map (\<lambda>j. replicate 45 CHR ''-'' @ ''[ANSWER '' @ str_nat j @ '']''
      @ replicate 45 CHR ''-'' @ nl @ candidates ! j @ nl @ nl @ nl) [0..<length candidates]"
  from assms(5) have "render_session s = Inr (question_formatted s @ nl @ nl @ nl @ concat blocks)"
    unfolding render_session_closed [OF assms(4)] blocks_def by auto
  then have "rendered s = question_formatted s @ nl @ nl @ nl @ concat blocks"
    by (simp add: rendered_def)
  with format_session_outputs_nth [OF assms(1,2)] assms(3)
  have "formatted_output (snd (fst (format_session_outputs sessions) ! i))
        = Some (question_formatted s @ nl @ nl @ nl @ concat blocks)"
    by (simp add: write_transcript_def)
  moreover have "length blocks = length candidates"
    by (simp add: blocks_def)
  moreover have "\<forall>j < length candidates. blocks ! j =
          replicate 45 CHR ''-'' @ ''[ANSWER '' @ str_nat j @ '']'' @ replicate 45 CHR ''-'' @ nl
          @ candidates ! j @ nl @ nl @ nl"
    by (simp add: blocks_def)
  ultimately show ?thesis by blast
qed

theorem format_session_outputs_answer_blocks_witness:
  "\<exists>blocks.
     formatted_output (snd (fst (format_session_outputs
       [(''q1'', \<lparr>question_raw = \<lparr>question_text = Some ''Q'', options = None\<rparr>,
                 question_formatted = ''Q'', answers = Some [''A'', ''B''],
                 final_answers = None, formatted_output = None\<rparr>)]) ! 0))
       = Some (''Q'' @ nl @ nl @ nl @ concat blocks)
     \<and> blocks =
        [replicate 45 CHR ''-'' @ ''[ANSWER 0]'' @ replicate 45 CHR ''-'' @ nl
           @ ''A'' @ nl @ nl @ nl,
         replicate 45 CHR ''-'' @ ''[ANSWER 1]'' @ replicate 45 CHR ''-'' @ nl
           @ ''B'' @ nl @ nl @ nl]"
proof -
  let ?s = "\<lparr>question_raw = \<lparr>question_text = Some ''Q'', options = None\<rparr>,
        question_formatted = ''Q'', answers = Some [''A'', ''B''],
        final_answers = None, formatted_output = None\<rparr>"
  let ?S = "[(''q1'', ?s)]"
  have reached: "\<forall>j \<le> 0. answers (snd (?S ! j)) \<noteq> None" by simp
  have index: "0 < length ?S" by simp
  have entry: "?S ! 0 = (''q1'', ?s)" by simp
  have candidates: "answers ?s = Some [''A'', ''B'']" by simp
  have finals: "final_answers ?s = None \<or> final_answers ?s = Some []" by simp
  from format_session_outputs_answer_blocks [OF reached index entry candidates finals]
  obtain blocks where run: "formatted_output (snd (fst (format_session_outputs ?S) ! 0))
        = Some (question_formatted ?s @ nl @ nl @ nl @ concat blocks)"
    and len: "length blocks = length [''A'', ''B'']"
    and nth: "\<forall>j < length [''A'', ''B'']. blocks ! j =
          replicate 45 CHR ''-'' @ ''[ANSWER '' @ str_nat j @ '']'' @ replicate 45 CHR ''-'' @ nl
          @ [''A'', ''B''] ! j @ nl @ nl @ nl"
    by blast
  from len obtain b0 b1 where blocks: "blocks = [b0, b1]"
    by (cases blocks; cases "tl blocks") auto
  from nth have "blocks ! 0 = replicate 45 CHR ''-'' @ ''[ANSWER 0]'' @ replicate 45 CHR ''-'' @ nl
           @ ''A'' @ nl @ nl @ nl"
    and "blocks ! 1 = replicate 45 CHR ''-'' @ ''[ANSWER 1]'' @ replicate 45 CHR ''-'' @ nl
           @ ''B'' @ nl @ nl @ nl"
    by (simp_all add: str_nat_digit digit_char_def)
  with blocks run show ?thesis
    by (simp del: format_session_outputs.simps)
qed

lemma split_lines_not_Nil [simp]: "split_lines xs \<noteq> []"
  by (induction xs) (auto split: list.splits)

lemma split_lines_append_nl: "split_lines (xs @ nl @ ys) = split_lines xs @ split_lines ys"
proof (induction xs)
  case Nil
  show ?case by (simp add: nl_def)
next
  case (Cons c cs)
  obtain l ls where "split_lines cs = l # ls"
    by (cases "split_lines cs") simp_all
  with Cons show ?case
    by (simp add: nl_def)
qed

lemma split_lines_nl: "split_lines nl = [[], []]"
  by (simp add: nl_def)

lemma split_lines_no_newline: "CHR 0x0A \<notin> set xs \<Longrightarrow> split_lines xs = [xs]"
  by (induction xs) auto

lemma digit_char_no_newline: "d < 10 \<Longrightarrow> digit_char d \<noteq> CHR 0x0A"
proof -
  assume "d < 10"
  then have "digit_char d \<in> set ''0123456789''"
    unfolding digit_char_def by (intro nth_mem) simp
  then show ?thesis by auto
qed

lemma str_nat_no_newline: "CHR 0x0A \<notin> set (str_nat n)"
proof (induction n rule: str_nat.induct)
  case (1 n)
  show ?case
  proof (cases "n < 10")
    case True
    then show ?thesis
      using digit_char_no_newline [of n] by (auto simp: str_nat.simps [of n])
  next
    case False
    with "1" have "CHR 0x0A \<notin> set (str_nat (n div 10))" by simp
    moreover have "digit_char (n mod 10) \<noteq> CHR 0x0A"
      by (rule digit_char_no_newline) simp
    ultimately show ?thesis
      using False by (auto simp: str_nat.simps [of n])
  qed
qed

lemma split_lines_answer_delimiter: "split_lines (answer_delimiter i) = [answer_delimiter i]"
  by (rule split_lines_no_newline) (auto simp: answer_delimiter_def str_nat_no_newline)

lemma delimiter_like_answer_delimiter: "delimiter_like (answer_delimiter i)"
proof -
  have "replicate 45 CHR ''-'' = replicate 43 CHR ''-'' @ replicate 2 CHR ''-''"
    by (simp add: replicate_add [symmetric])
  then show ?thesis
    unfolding delimiter_like_def answer_delimiter_def by (metis append.assoc prefixI)
qed

lemma not_delimiter_like_Nil [simp]: "\<not> delimiter_like []"
  by (simp add: delimiter_like_def)

lemma delimiter_lines_blocks:
  assumes "\<forall>a \<in> set candidates. filter delimiter_like (split_lines a) = []"
  shows "filter delimiter_like
      (split_lines (concat (map (\<lambda>p. answer_delimiter (fst p) @ nl @ snd p @ nl @ nl @ nl)
                               (enumerate n candidates))))
    = map answer_delimiter [n..<n + length candidates]"
  using assms
proof (induction candidates arbitrary: n)
  case Nil
  show ?case by simp
next
  case (Cons a candidates)
  let ?rest = "concat (map (\<lambda>p. answer_delimiter (fst p) @ nl @ snd p @ nl @ nl @ nl)
                               (enumerate (Suc n) candidates))"
  have "split_lines (answer_delimiter n @ nl @ a @ nl @ nl @ nl @ ?rest)
      = answer_delimiter n # split_lines a @ [[], []] @ split_lines ?rest"
    by (simp add: split_lines_append_nl split_lines_nl split_lines_answer_delimiter)
  moreover have "filter delimiter_like (split_lines ?rest)
      = map answer_delimiter [Suc n..<Suc n + length candidates]"
    using Cons.prems by (intro Cons.IH) simp
  ultimately have "filter delimiter_like
      (split_lines (concat (map (\<lambda>p. answer_delimiter (fst p) @ nl @ snd p @ nl @ nl @ nl)
                               (enumerate n (a # candidates)))))
    = answer_delimiter n # map answer_delimiter [Suc n..<Suc n + length candidates]"
    using Cons.prems by (simp add: delimiter_like_answer_delimiter)
  also have "\<dots> = map answer_delimiter [n..<n + length (a # candidates)]"
  proof -
    have "n < n + length (a # candidates)" by simp
    then have "[n..<n + length (a # candidates)] = n # [Suc n..<n + length (a # candidates)]"
      by (rule upt_conv_Cons)
    moreover have "n + length (a # candidates) = Suc n + length candidates" by simp
    ultimately have "[n..<n + length (a # candidates)] = n # [Suc n..<Suc n + length candidates]"
      by (simp only:)
    then show ?thesis by (simp only: list.map)
  qed
  finally show ?case .
qed

text \<open>
  The same count on the text itself. When no line of the question text or of a candidate
  starts with 43 dashes, the lines of the transcript that do are exactly the \<open>k\<close> delimiter
  lines \<open>[ANSWER 0]\<close>, ..., \<open>[ANSWER k - 1]\<close>, in this order; in particular none of them is
  a \<open>[FINAL ANSWER]\<close> line.
\<close>

theorem transcript_delimiter_lines:
  assumes "answers s = Some candidates"
    and "final_answers s = None \<or> final_answers s = Some []"
    and "\<forall>l \<in> set (split_lines (question_formatted s)). \<not> delimiter_like l"
    and "\<forall>a \<in> set candidates. \<forall>l \<in> set (split_lines a). \<not> delimiter_like l"
  shows "\<exists>transcript. render_session s = Inr transcript
    \<and> filter delimiter_like (split_lines transcript)
        = map (\<lambda>i. replicate 45 CHR ''-'' @ ''[ANSWER '' @ str_nat i @ '']''
                    @ replicate 45 CHR ''-'') [0..<length candidates]"
proof -
  let ?blocks = "concat (map (\<lambda>p. answer_delimiter (fst p) @ nl @ snd p @ nl @ nl @ nl)
                               (enumerate 0 candidates))"
  from assms(2)
  have run: "render_session s = Inr (question_formatted s @ nl @ nl @ nl @ ?blocks)"
    by (auto simp: render_session_def assms(1) fold_append_answer repeat_str_def
        answer_delimiter_def)
  have question: "filter delimiter_like (split_lines (question_formatted s)) = []"
    using assms(3) by (simp add: filter_empty_conv)
  have texts: "\<forall>a \<in> set candidates. filter delimiter_like (split_lines a) = []"
    using assms(4) by (simp add: filter_empty_conv)
  have "split_lines (question_formatted s @ nl @ nl @ nl @ ?blocks)
      = split_lines (question_formatted s) @ [[], []] @ split_lines ?blocks"
    by (simp add: split_lines_append_nl split_lines_nl)
  with question delimiter_lines_blocks [OF texts, of 0]
  have "filter delimiter_like (split_lines (question_formatted s @ nl @ nl @ nl @ ?blocks))
      = map answer_delimiter [0..<length candidates]"
    by simp
  with run show ?thesis
    by (simp add: answer_delimiter_def [abs_def])
qed

theorem transcript_delimiter_lines_witness:
  "\<exists>transcript.
     render_session
       \<lparr>question_raw = \<lparr>question_text = Some ''Q'', options = None\<rparr>,
        question_formatted = ''Q'', answers = Some [''- A'', ''B''],
        final_answers = None, formatted_output = None\<rparr> = Inr transcript
     \<and> filter delimiter_like (split_lines transcript)
        = [replicate 45 CHR ''-'' @ ''[ANSWER 0]'' @ replicate 45 CHR ''-'',
           replicate 45 CHR ''-'' @ ''[ANSWER 1]'' @ replicate 45 CHR ''-'']"
proof -
  let ?s = "\<lparr>question_raw = \<lparr>question_text = Some ''Q'', options = None\<rparr>,
        question_formatted = ''Q'', answers = Some [''- A'', ''B''],
        final_answers = None, formatted_output = None\<rparr>"
  have dashes: "replicate 43 CHR ''-'' = CHR ''-'' # replicate 42 CHR ''-''"
    by (simp add: numeral_eq_Suc)
  have candidates: "answers ?s = Some [''- A'', ''B'']" by simp
  have finals: "final_answers ?s = None \<or> final_answers ?s = Some []" by simp
  have question: "\<forall>l \<in> set (split_lines (question_formatted ?s)). \<not> delimiter_like l"
    by (simp add: delimiter_like_def dashes)
  have texts: "\<forall>a \<in> set [''- A'', ''B'']. \<forall>l \<in> set (split_lines a). \<not> delimiter_like l"
    by (simp add: delimiter_like_def dashes numeral_eq_Suc)
  from transcript_delimiter_lines [OF candidates finals question texts]
  show ?thesis
    by (simp add: str_nat_digit digit_char_def)
qed

text \<open>
  Claim C10. If some session of the store has no \<open>answers\<close> entry, the call ends with
  \<open>KeyError('answers')\<close>, and every such session is left exactly as it was: no
  \<open>formatted_output\<close> is written for it.
\<close>
theorem format_session_outputs_missing_answers:
  assumes "i < length sessions"
    and "answers (snd (sessions ! i)) = None"
  shows "snd (format_session_outputs sessions) = Some (KeyError ''answers'')
    \<and> length (fst (format_session_outputs sessions)) = length sessions
    \<and> fst (format_session_outputs sessions) ! i = sessions ! i"
proof -
  have "snd (format_session_outputs sessions) = Some (KeyError ''answers'')
    \<and> fst (format_session_outputs sessions) ! i = sessions ! i"
    using assms
  proof (induction sessions arbitrary: i)
    case Nil
    then show ?case by simp
  next
    case (Cons e sessions)
    obtain question_id s where e: "e = (question_id, s)" by (cases e)
    show ?case
    proof (cases "render_session s")
      case (Inl err)
      then show ?thesis
        using render_session_cases [OF Inl] by (simp add: e)
    next
      case (Inr out)
      then have "answers s \<noteq> None"
        by (cases "answers s") (simp_all add: render_session_no_answers)
      with Cons.prems obtain j where j: "i = Suc j"
        by (cases i) (simp_all add: e)
      with Cons.prems have "j < length sessions" "answers (snd (sessions ! j)) = None"
        by simp_all
      from Cons.IH [OF this] Inr show ?thesis
        by (auto simp: e j split: prod.splits)
    qed
  qed
  then show ?thesis
    by (simp add: format_session_outputs_length)
qed

theorem format_session_outputs_missing_answers_witness:
  "format_session_outputs
     [(''a'', \<lparr>question_raw = \<lparr>question_text = Some ''Q'', options = None\<rparr>,
              question_formatted = ''Q'', answers = Some [],
              final_answers = None, formatted_output = None\<rparr>),
      (''b'', \<lparr>question_raw = \<lparr>question_text = Some ''R'', options = None\<rparr>,
              question_formatted = ''R'', answers = None,
              final_answers = None, formatted_output = None\<rparr>)]
   = ([(''a'', \<lparr>question_raw = \<lparr>question_text = Some ''Q'', options = None\<rparr>,
              question_formatted = ''Q'', answers = Some [],
              final_answers = None, formatted_output = Some (''Q'' @ nl @ nl @ nl)\<rparr>),
       (''b'', \<lparr>question_raw = \<lparr>question_text = Some ''R'', options = None\<rparr>,
              question_formatted = ''R'', answers = None,
              final_answers = None, formatted_output = None\<rparr>)],
      Some (KeyError ''answers''))"
proof -
  let ?S = "[(''a'', \<lparr>question_raw = \<lparr>question_text = Some ''Q'', options = None\<rparr>,
              question_formatted = ''Q'', answers = Some [],
              final_answers = None, formatted_output = None\<rparr>),
      (''b'', \<lparr>question_raw = \<lparr>question_text = Some ''R'', options = None\<rparr>,
              question_formatted = ''R'', answers = None,
              final_answers = None, formatted_output = None\<rparr>)]"
  have index: "1 < length ?S" by simp
  have missing: "answers (snd (?S ! 1)) = None" by simp
  from format_session_outputs_missing_answers [OF index missing]
  have "snd (format_session_outputs ?S) = Some (KeyError ''answers'')"
    by blast
  then show ?thesis
    by (simp add: render_session_def)
qed

section \<open>Session creation\<close>

lemma fold_append_option:
  "fold append_option ps acc =
     acc @ concat (map (\<lambda>p. ''OPTION '' @ str_nat (fst p) @ '': '' @ snd p @ nl) ps)"
  by (induction ps arbitrary: acc) (simp_all add: append_option_def)

lemma format_question_closed:
  assumes "question_text q = Some text"
    and "opts = (case options q of None \<Rightarrow> [] | Some os \<Rightarrow> os)"
  shows "format_question q = Inr (''QUESTION: '' @ text @ nl
     @ concat (map (\<lambda>j. ''OPTION '' @ str_nat j @ '': '' @ opts ! j @ nl) [0..<length opts])
     @ nl @ nl @ '' Please provide the answer and explain your reasoning!''
     @ '' If there are options to choose from, do not provide an answer different from the options.''
     @ nl)"
  using assms
  by (simp add: format_question_def fold_append_option enumerate_as_indices [of 0] comp_def
      split: option.splits)

lemma update_fresh_key:
  "k \<notin> fst ` set acc \<Longrightarrow> AList.update k v acc = acc @ [(k, v)]"
  by (induction acc) auto

lemma generate_sessions_loop_closed:
  assumes "distinct (map fst raw)"
    and "fst ` set raw \<inter> fst ` set acc = {}"
    and "\<forall>e \<in> set raw. question_text (snd e) \<noteq> None"
  shows "generate_sessions_loop raw acc out =
     (Inr (acc @ map new_session raw),
      out @ concat (map (\<lambda>e. formatted_question (snd e) @ nl) raw))"
  using assms
proof (induction raw arbitrary: acc out)
  case Nil
  show ?case by simp
next
  case (Cons e raw)
  obtain question_id q where e: "e = (question_id, q)" by (cases e)
  from Cons.prems(3) obtain qtext where "question_text q = Some qtext"
    by (auto simp: e)
  then obtain qf where qf: "format_question q = Inr qf"
    using format_question_closed by blast
  let ?new = "\<lparr>question_raw = q, question_formatted = qf,
                answers = None, final_answers = None, formatted_output = None\<rparr>"
  from Cons.prems(2) have fresh: "question_id \<notin> fst ` set acc"
    by (auto simp: e)
  have acc': "AList.update question_id ?new acc = acc @ [(question_id, ?new)]"
    by (rule update_fresh_key [OF fresh])
  have "distinct (map fst raw)"
    using Cons.prems(1) by simp
  moreover have "fst ` set raw \<inter> fst ` set (acc @ [(question_id, ?new)]) = {}"
    using Cons.prems(1,2) by (auto simp: e)
  moreover have "\<forall>e \<in> set raw. question_text (snd e) \<noteq> None"
    using Cons.prems(3) by simp
  ultimately have "generate_sessions_loop raw (acc @ [(question_id, ?new)]) (out @ qf @ nl) =
     (Inr ((acc @ [(question_id, ?new)]) @ map new_session raw),
      (out @ qf @ nl) @ concat (map (\<lambda>e. formatted_question (snd e) @ nl) raw))"
    by (rule Cons.IH)
  then show ?case
    by (simp add: e qf acc' new_session_def formatted_question_def)
qed

text \<open>
  Claim C7. For a dictionary of questions that all have a text, \<open>generate_sessions\<close>
  returns one session per question, in input order and under the same key, whose formatted
  text is the \<open>QUESTION:\<close> line, one \<open>OPTION N:\<close> line per option with \<open>N\<close> counting from
  zero in input order (none when the question has no options), then the fixed suffix. The
  question \<open>2+2?\<close> with options \<open>3\<close> and \<open>4\<close> gives the lines \<open>QUESTION: 2+2?\<close>,
  \<open>OPTION 0: 3\<close>, \<open>OPTION 1: 4\<close> and the suffix.
\<close>
theorem generate_sessions_question_text:
  assumes "distinct (map fst raw_questions)"
    and "\<forall>e \<in> set raw_questions. question_text (snd e) \<noteq> None"
    and "i < length raw_questions"
    and "raw_questions ! i = (question_id, q)"
    and "question_text q = Some text"
    and "opts = (case options q of None \<Rightarrow> [] | Some os \<Rightarrow> os)"
  shows "(\<exists>sessions. fst (generate_sessions raw_questions) = Inr sessions
     \<and> map fst sessions = map fst raw_questions
     \<and> question_raw (snd (sessions ! i)) = q
     \<and> question_formatted (snd (sessions ! i)) =
         ''QUESTION: '' @ text @ nl
         @ concat (map (\<lambda>j. ''OPTION '' @ str_nat j @ '': '' @ opts ! j @ nl) [0..<length opts])
         @ nl @ nl @ '' Please provide the answer and explain your reasoning!''
         @ '' If there are options to choose from, do not provide an answer different from the options.''
         @ nl)
     \<and> question_formatted (snd (hd (projr (fst (generate_sessions
           [(''q'', \<lparr>question_text = Some ''2+2?'', options = Some [''3'', ''4'']\<rparr>)]))))) =
         ''QUESTION: 2+2?'' @ nl @ ''OPTION 0: 3'' @ nl @ ''OPTION 1: 4'' @ nl
         @ nl @ nl @ '' Please provide the answer and explain your reasoning!''
         @ '' If there are options to choose from, do not provide an answer different from the options.''
         @ nl"
proof -
  have run: "fst (generate_sessions raw_questions) = Inr (map new_session raw_questions)"
    using generate_sessions_loop_closed [OF assms(1) _ assms(2), of "[]" "[]"]
    by (simp add: generate_sessions_def)
  have keys: "map fst (map new_session raw_questions) = map fst raw_questions"
    by (simp add: new_session_def comp_def)
  have entry: "map new_session raw_questions ! i = new_session (question_id, q)"
    using assms(3,4) by simp
  have raw: "question_raw (snd (map new_session raw_questions ! i)) = q"
    by (simp add: entry new_session_def)
  have formatted: "question_formatted (snd (map new_session raw_questions ! i)) =
         ''QUESTION: '' @ text @ nl
         @ concat (map (\<lambda>j. ''OPTION '' @ str_nat j @ '': '' @ opts ! j @ nl) [0..<length opts])
         @ nl @ nl @ '' Please provide the answer and explain your reasoning!''
         @ '' If there are options to choose from, do not provide an answer different from the options.''
         @ nl"
    unfolding entry
    by (simp add: new_session_def formatted_question_def format_question_closed [OF assms(5,6)])
  have example: "question_formatted (snd (hd (projr (fst (generate_sessions
           [(''q'', \<lparr>question_text = Some ''2+2?'', options = Some [''3'', ''4'']\<rparr>)]))))) =
         ''QUESTION: 2+2?'' @ nl @ ''OPTION 0: 3'' @ nl @ ''OPTION 1: 4'' @ nl
         @ nl @ nl @ '' Please provide the answer and explain your reasoning!''
         @ '' If there are options to choose from, do not provide an answer different from the options.''
         @ nl"
    by (simp add: generate_sessions_def format_question_def append_option_def str_nat_digit
        digit_char_def)
  from run keys raw formatted example show ?thesis
    by blast
qed

theorem generate_sessions_question_text_witness:
  "\<exists>sessions. fst (generate_sessions
       [(''a'', \<lparr>question_text = Some ''Why?'', options = None\<rparr>),
        (''b'', \<lparr>question_text = Some ''2+2?'', options = Some [''3'', ''4'']\<rparr>)]) = Inr sessions
     \<and> map fst sessions = [''a'', ''b'']
     \<and> question_raw (snd (sessions ! 1)) =
         \<lparr>question_text = Some ''2+2?'', options = Some [''3'', ''4'']\<rparr>
     \<and> question_formatted (snd (sessions ! 1)) =
         ''QUESTION: 2+2?'' @ nl @ ''OPTION 0: 3'' @ nl @ ''OPTION 1: 4'' @ nl
         @ nl @ nl @ '' Please provide the answer and explain your reasoning!''
         @ '' If there are options to choose from, do not provide an answer different from the options.''
         @ nl"
proof -
  let ?q = "\<lparr>question_text = Some ''2+2?'', options = Some [''3'', ''4'']\<rparr>"
  let ?R = "[(''a'', \<lparr>question_text = Some ''Why?'', options = None\<rparr>), (''b'', ?q)]"
  have keys: "distinct (map fst ?R)" by simp
  have texts: "\<forall>e \<in> set ?R. question_text (snd e) \<noteq> None" by simp
  have index: "1 < length ?R" by simp
  have entry: "?R ! 1 = (''b'', ?q)" by simp
  have qtext: "question_text ?q = Some ''2+2?''" by simp
  have opts: "[''3'', ''4''] = (case options ?q of None \<Rightarrow> [] | Some os \<Rightarrow> os)" by simp
  from generate_sessions_question_text [OF keys texts index entry qtext opts]
  show ?thesis
    by (simp add: str_nat_digit digit_char_def del: One_nat_def)
qed

section \<open>Persistence\<close>

lemma write_blocks_closed:
  "\<forall>e \<in> set es. save_block e = Inr (g e) \<Longrightarrow>
     write_blocks es written = (written @ concat (map g es), None)"
  by (induction es arbitrary: written) simp_all

lemma save_block_closed:
  "formatted_output s = Some transcript \<Longrightarrow>
     save_block (qid, question_id, s) =
       Inr (replicate 100 CHR ''='' @ nl
            @ ''Question #'' @ str_nat qid @ '' (ID'' @ question_id @ '')'' @ nl
            @ replicate 100 CHR ''='' @ nl @ transcript @ nl @ nl @ nl)"
  by (simp add: save_block_def repeat_str_def)

text \<open>
  Claim C8, as amended. For a store whose sessions all have a transcript, and a file name
  that can be opened for writing, \<open>save_file\<close> raises nothing and replaces the contents of
  the file, whatever they were, by the concatenation over the sessions in iteration order
  of: a line of 100 \<open>=\<close>, the line \<open>Question #{ordinal} (ID{question_id})\<close> with the ordinal
  counting from 0, a line of 100 \<open>=\<close>, the transcript of the session, and three newline
  characters; no other file changes. When the name cannot be opened (the empty name never
  can), \<open>save_file\<close> raises the error of \<open>open\<close> and changes no file.
\<close>
theorem save_file_contents:
  assumes "map (\<lambda>e. formatted_output (snd e)) sessions = map Some transcripts"
    and "name = (case filename of None \<Rightarrow> ''answers.txt'' | Some f \<Rightarrow> f)"
  shows "save_file sessions filename fs =
     (if name \<noteq> [] \<and> writable fs name
      then
        (fs\<lparr>contents := (contents fs)(name \<mapsto>
           concat (map (\<lambda>i. replicate 100 CHR ''='' @ nl
                            @ ''Question #'' @ str_nat i @ '' (ID'' @ fst (sessions ! i) @ '')'' @ nl
                            @ replicate 100 CHR ''='' @ nl
                            @ transcripts ! i @ nl @ nl @ nl)
                     [0..<length sessions]))\<rparr>,
         None)
      else (fs, Some OSError))"
proof (cases "can_open fs name")
  case False
  with assms(2) show ?thesis
    by (auto simp: save_file_def can_open_def Let_def)
next
  case True
  let ?g = "\<lambda>e. replicate 100 CHR ''='' @ nl
       @ ''Question #'' @ str_nat (fst e) @ '' (ID'' @ fst (snd e) @ '')'' @ nl
       @ replicate 100 CHR ''='' @ nl @ transcripts ! fst e @ nl @ nl @ nl"
  from assms(1) have len: "length transcripts = length sessions"
    by (metis length_map)
  have present: "formatted_output (snd (sessions ! i)) = Some (transcripts ! i)"
    if "i < length sessions" for i
  proof -
    have "map (\<lambda>e. formatted_output (snd e)) sessions ! i = map Some transcripts ! i"
      by (simp only: assms(1))
    with that len show ?thesis by simp
  qed
  have "\<forall>e \<in> set (enumerate 0 sessions). save_block e = Inr (?g e)"
  proof
    fix e assume "e \<in> set (enumerate 0 sessions)"
    then obtain i where i: "i < length sessions" and e: "e = (i, sessions ! i)"
      by (auto simp: enumerate_as_indices [of 0 sessions])
    obtain question_id s where entry: "sessions ! i = (question_id, s)"
      by (cases "sessions ! i")
    from present [OF i] have "formatted_output s = Some (transcripts ! i)"
      by (simp add: entry)
    from save_block_closed [OF this] show "save_block e = Inr (?g e)"
      by (simp add: e entry)
  qed
  from write_blocks_closed [OF this]
  have "write_blocks (enumerate 0 sessions) [] = (concat (map ?g (enumerate 0 sessions)), None)"
    by simp
  with True assms(2) show ?thesis
    by (simp add: save_file_def can_open_def enumerate_as_indices [of 0 sessions] comp_def)
qed

theorem save_file_contents_witness:
  "save_file
     [(''7'', \<lparr>question_raw = \<lparr>question_text = Some ''Q'', options = None\<rparr>,
              question_formatted = ''Q'', answers = None, final_answers = None,
              formatted_output = Some ''first''\<rparr>),
      (''3'', \<lparr>question_raw = \<lparr>question_text = Some ''R'', options = None\<rparr>,
              question_formatted = ''R'', answers = None, final_answers = None,
              formatted_output = Some ''second''\<rparr>)]
     (Some ''out.txt'')
     \<lparr>contents = [''out.txt'' \<mapsto> ''old contents''], writable = (\<lambda>name. name = ''out.txt'')\<rparr>
   = (\<lparr>contents = [''out.txt'' \<mapsto>
         replicate 100 CHR ''='' @ nl @ ''Question #0 (ID7)'' @ nl @ replicate 100 CHR ''='' @ nl
         @ ''first'' @ nl @ nl @ nl
         @ replicate 100 CHR ''='' @ nl @ ''Question #1 (ID3)'' @ nl @ replicate 100 CHR ''='' @ nl
         @ ''second'' @ nl @ nl @ nl],
        writable = (\<lambda>name. name = ''out.txt'')\<rparr>,
      None)"
proof -
  let ?S = "[(''7'', \<lparr>question_raw = \<lparr>question_text = Some ''Q'', options = None\<rparr>,
              question_formatted = ''Q'', answers = None, final_answers = None,
              formatted_output = Some ''first''\<rparr>),
      (''3'', \<lparr>question_raw = \<lparr>question_text = Some ''R'', options = None\<rparr>,
              question_formatted = ''R'', answers = None, final_answers = None,
              formatted_output = Some ''second''\<rparr>)]"
  let ?fs = "\<lparr>contents = [''out.txt'' \<mapsto> ''old contents''],
             writable = (\<lambda>name. name = ''out.txt'')\<rparr>"
  have present: "map (\<lambda>e. formatted_output (snd e)) ?S = map Some [''first'', ''second'']"
    by simp
  have name: "''out.txt'' = (case Some ''out.txt'' of None \<Rightarrow> ''answers.txt'' | Some f \<Rightarrow> f)"
    by simp
  from save_file_contents [OF present name, of ?fs]
  show ?thesis
    by (simp add: str_nat_digit digit_char_def)
qed

text \<open>
  Claim C8 as stated fails: the file is not exactly the headers and transcripts, since
  three newline characters follow every transcript. A store of one session with the
  transcript \<open>first\<close>, saved under the default name in a directory that accepts it, shows
  it.
\<close>
theorem save_file_contents_counterexample:
  "contents (fst (save_file
     [(''7'', \<lparr>question_raw = \<lparr>question_text = Some ''Q'', options = None\<rparr>,
              question_formatted = ''Q'', answers = None, final_answers = None,
              formatted_output = Some ''first''\<rparr>)]
     None \<lparr>contents = Map.empty, writable = (\<lambda>name. True)\<rparr>)) ''answers.txt''
   \<noteq> Some (file_as_specified
     [(''7'', \<lparr>question_raw = \<lparr>question_text = Some ''Q'', options = None\<rparr>,
              question_formatted = ''Q'', answers = None, final_answers = None,
              formatted_output = Some ''first''\<rparr>)])"
  by (simp add: save_file_def can_open_def save_block_def file_as_specified_def nl_def)

text \<open>
  The empty file name: \<open>open\<close> raises before anything is written, whatever the store and
  the state of the files.
\<close>

lemma save_file_empty_name: "save_file sessions (Some []) fs = (fs, Some OSError)"
  by (simp add: save_file_def can_open_def)

section \<open>The batch answerer\<close>

lemma single_turn_prompt:
  "build_conversation_prompt [u] [] = Inr (''<s> [INST] '' @ u @ '' [/INST]'')"
  by (simp add: build_conversation_prompt_def extend_turn_def BOS_def INST_START_def INST_END_def)

lemma round1_prompts_closed:
  "round1_prompts ss = Inr (map (\<lambda>s. ''<s> [INST] '' @ question_formatted s @ '' [/INST]'') ss)"
  by (induction ss) (simp_all add: single_turn_prompt)

lemma round2_prompts_closed:
  "map formatted_output ss = map Some transcripts \<Longrightarrow>
   round2_prompts ss =
     Inr (map (\<lambda>t. ''<s> [INST] '' @ final_prompt_text t @ '' [/INST]'') transcripts)"
proof (induction ss arbitrary: transcripts)
  case Nil
  then show ?case by simp
next
  case (Cons s ss)
  then obtain t ts where "transcripts = t # ts" "formatted_output s = Some t"
    "map formatted_output ss = map Some ts"
    by (cases transcripts) auto
  with Cons.IH [of ts] show ?case
    by (simp add: single_turn_prompt)
qed

lemma submitted_answer_batch_questions:
  "submitted (answer_batch_questions llm sessions n best_of) =
     [(map (\<lambda>e. ''<s> [INST] '' @ question_formatted (snd e) @ '' [/INST]'') sessions,
       SamplingParams (case n of None \<Rightarrow> 7 | Some v \<Rightarrow> v)
         (case best_of of None \<Rightarrow> 10 | Some v \<Rightarrow> v) 1024)]"
  by (simp add: answer_batch_questions_def round1_prompts_closed comp_def Let_def
      split: sum.splits prod.splits)

lemma submitted_answer_batch_questions_final:
  assumes "map (\<lambda>e. formatted_output (snd e)) sessions = map Some transcripts"
  shows "submitted (answer_batch_questions_final llm sessions n best_of) =
     [(map (\<lambda>t. ''<s> [INST] '' @ final_prompt_text t @ '' [/INST]'') transcripts,
       SamplingParams (case n of None \<Rightarrow> 1 | Some v \<Rightarrow> v)
         (case best_of of None \<Rightarrow> 3 | Some v \<Rightarrow> v) 1024)]"
proof -
  from assms have "map formatted_output (map snd sessions) = map Some transcripts"
    by (simp add: comp_def)
  from round2_prompts_closed [OF this] show ?thesis
    by (simp add: answer_batch_questions_final_def Let_def split: sum.splits prod.splits)
qed

text \<open>
  Claim C6. Called with its default arguments, round 1 submits one request: for each
  session, in store order, the prompt the prompt builder gives for the formatted question
  as the only user turn and no bot turn, with \<open>SamplingParams(n=7, best_of=10,
  max_tokens=1024)\<close>. Called with its default arguments on a store whose sessions all have
  a transcript, round 2 submits one request: for each session the prompt the prompt
  builder gives for the single user turn made of the transcript, a newline, the separator
  of ten tildes, two newlines and the fixed final-answer instruction (which ends with a
  newline), with \<open>SamplingParams(n=1, best_of=3, max_tokens=1024)\<close>. A request is
  submitted whatever the engine then answers.
\<close>
theorem batch_rounds_submit:
  assumes "map (\<lambda>e. formatted_output (snd e)) answered = map Some transcripts"
  shows "submitted (answer_batch_questions llm sessions None None) =
       [(map (\<lambda>e. ''<s> [INST] '' @ question_formatted (snd e) @ '' [/INST]'') sessions,
         SamplingParams 7 10 1024)]
    \<and> (\<forall>e \<in> set sessions.
          build_conversation_prompt [question_formatted (snd e)] []
            = Inr (''<s> [INST] '' @ question_formatted (snd e) @ '' [/INST]''))
    \<and> submitted (answer_batch_questions_final llm answered None None) =
       [(map (\<lambda>t. ''<s> [INST] ''
                  @ t @ nl @ ''~~~~~~~~~~'' @ nl @ nl
                  @ ''Please provide the CORRECT final answer based on the question and the independent answers above. Explain why please!''
                  @ nl
                  @ '' [/INST]'') transcripts,
         SamplingParams 1 3 1024)]
    \<and> (\<forall>t \<in> set transcripts.
          build_conversation_prompt
            [t @ nl @ ''~~~~~~~~~~'' @ nl @ nl
             @ ''Please provide the CORRECT final answer based on the question and the independent answers above. Explain why please!''
             @ nl] []
            = Inr (''<s> [INST] ''
                  @ t @ nl @ ''~~~~~~~~~~'' @ nl @ nl
                  @ ''Please provide the CORRECT final answer based on the question and the independent answers above. Explain why please!''
                  @ nl
                  @ '' [/INST]''))"
proof -
  have tildes: "repeat_str CHR ''~'' 10 = ''~~~~~~~~~~''"
    by (simp add: repeat_str_def numeral_eq_Suc)
  show ?thesis
    using submitted_answer_batch_questions [of llm sessions None None]
      submitted_answer_batch_questions_final [OF assms, of llm None None]
    by (simp add: single_turn_prompt final_prompt_text_def tildes)
qed

theorem batch_rounds_submit_witness:
  "submitted (answer_batch_questions (\<lambda>req. Inl EngineError)
       [(''a'', \<lparr>question_raw = \<lparr>question_text = Some ''Q'', options = None\<rparr>,
                question_formatted = ''Q'', answers = None, final_answers = None,
                formatted_output = None\<rparr>)] None None) =
     [([''<s> [INST] Q [/INST]''], SamplingParams 7 10 1024)]
   \<and> submitted (answer_batch_questions_final (\<lambda>req. Inl EngineError)
       [(''a'', \<lparr>question_raw = \<lparr>question_text = Some ''Q'', options = None\<rparr>,
                question_formatted = ''Q'', answers = Some [], final_answers = None,
                formatted_output = Some ''T''\<rparr>)] None None) =
     [([''<s> [INST] T'' @ nl @ ''~~~~~~~~~~'' @ nl @ nl
        @ ''Please provide the CORRECT final answer based on the question and the independent answers above. Explain why please!''
        @ nl @ '' [/INST]''], SamplingParams 1 3 1024)]"
proof -
  let ?answered = "[(''a'', \<lparr>question_raw = \<lparr>question_text = Some ''Q'', options = None\<rparr>,
                question_formatted = ''Q'', answers = Some [], final_answers = None,
                formatted_output = Some ''T''\<rparr>)]"
  have present: "map (\<lambda>e. formatted_output (snd e)) ?answered = map Some [''T'']"
    by simp
  from batch_rounds_submit [OF present, of "\<lambda>req. Inl EngineError"
      "[(''a'', \<lparr>question_raw = \<lparr>question_text = Some ''Q'', options = None\<rparr>,
                question_formatted = ''Q'', answers = None, final_answers = None,
                formatted_output = None\<rparr>)]"]
  show ?thesis
    by simp
qed

lemma map_entry_at_key:
  "k \<notin> fst ` set pre \<Longrightarrow> AList.map_entry k f (pre @ (k, s) # post) = pre @ (k, f s) # post"
  by (induction pre) auto

lemma attach_answers_closed:
  assumes "distinct (map fst (pre @ post))"
    and "length (pre @ post) \<le> length raw_answers"
  shows "attach_answers (enumerate (length pre) (map fst post)) raw_answers (pre @ post) =
     (pre @ map (\<lambda>p. (fst (snd p), (snd (snd p))\<lparr>answers := Some (raw_answers ! fst p)\<rparr>))
              (enumerate (length pre) post),
      None)"
  using assms
proof (induction post arbitrary: pre)
  case Nil
  show ?case by simp
next
  case (Cons e post)
  obtain k s where e: "e = (k, s)" by (cases e)
  let ?s' = "s\<lparr>answers := Some (raw_answers ! length pre)\<rparr>"
  from Cons.prems(1) have fresh: "k \<notin> fst ` set pre"
    by (auto simp: e)
  have "distinct (map fst ((pre @ [(k, ?s')]) @ post))"
    using Cons.prems(1) by (simp add: e)
  moreover have "length ((pre @ [(k, ?s')]) @ post) \<le> length raw_answers"
    using Cons.prems(2) by simp
  ultimately have "attach_answers (enumerate (length (pre @ [(k, ?s')])) (map fst post))
        raw_answers ((pre @ [(k, ?s')]) @ post) =
     ((pre @ [(k, ?s')]) @ map (\<lambda>p. (fst (snd p), (snd (snd p))\<lparr>answers := Some (raw_answers ! fst p)\<rparr>))
              (enumerate (length (pre @ [(k, ?s')])) post),
      None)"
    by (rule Cons.IH)
  moreover have "length pre < length raw_answers"
    using Cons.prems(2) by simp
  ultimately show ?case
    by (simp add: e map_entry_at_key [OF fresh])
qed

lemma write_blocks_no_error:
  "\<forall>e \<in> set es. formatted_output (snd (snd e)) \<noteq> None \<Longrightarrow> snd (write_blocks es acc) = None"
  by (induction es arbitrary: acc) (auto simp: save_block_def Let_def)

lemma save_file_no_error:
  assumes present: "\<forall>e \<in> set sessions. formatted_output (snd e) \<noteq> None"
    and opens: "can_open fs (case filename of None \<Rightarrow> ''answers.txt'' | Some f \<Rightarrow> f)"
  shows "snd (save_file sessions filename fs) = None"
proof -
  have "\<forall>e \<in> set (enumerate 0 sessions). formatted_output (snd (snd e)) \<noteq> None"
  proof
    fix e assume "e \<in> set (enumerate 0 sessions)"
    then have "fst e < length sessions" "sessions ! fst e = snd e"
      by (simp_all add: in_set_enumerate_eq)
    then have "snd e \<in> set sessions"
      by (metis nth_mem)
    with present show "formatted_output (snd (snd e)) \<noteq> None" by blast
  qed
  from write_blocks_no_error [OF this] opens show ?thesis
    by (simp add: save_file_def case_prod_beta)
qed

text \<open>The store after round 1 when the engine answers every prompt.\<close>

lemma answer_batch_questions_answered:
  assumes "distinct (map fst sessions)"
    and "llm (map (\<lambda>e. ''<s> [INST] '' @ question_formatted (snd e) @ '' [/INST]'') sessions,
              SamplingParams 7 10 1024) = Inr raw_answers"
    and "length sessions \<le> length raw_answers"
  shows "raised (answer_batch_questions llm sessions (Some 7) (Some 10)) = None"
    and "sessions_after (answer_batch_questions llm sessions (Some 7) (Some 10)) =
       map (\<lambda>p. (fst (snd p), (snd (snd p))\<lparr>answers := Some (raw_answers ! fst p)\<rparr>))
         (enumerate 0 sessions)"
  using attach_answers_closed [of "[]" sessions raw_answers] assms
  by (simp_all add: answer_batch_questions_def round1_prompts_closed comp_def)

lemma enumerate_map:
  "enumerate n (map f xs) = map (\<lambda>p. (fst p, f (snd p))) (enumerate n xs)"
  by (induction xs arbitrary: n) simp_all

lemma all_answered:
  "takeWhile has_answers (map (\<lambda>p. (fst (snd p), (snd (snd p))\<lparr>answers := Some (f p)\<rparr>)) ps)
     = map (\<lambda>p. (fst (snd p), (snd (snd p))\<lparr>answers := Some (f p)\<rparr>)) ps"
  by (simp add: takeWhile_eq_all_conv has_answers_def)

lemma format_session_outputs_answered:
  "format_session_outputs
       (map (\<lambda>p. (fst (snd p), (snd (snd p))\<lparr>answers := Some (f p)\<rparr>)) ps) =
     (map write_transcript (map (\<lambda>p. (fst (snd p), (snd (snd p))\<lparr>answers := Some (f p)\<rparr>)) ps),
      None)"
proof -
  let ?S = "map (\<lambda>p. (fst (snd p), (snd (snd p))\<lparr>answers := Some (f p)\<rparr>)) ps"
  have "dropWhile has_answers ?S = []"
    by (simp add: has_answers_def)
  then show ?thesis
    by (simp add: format_session_outputs_char all_answered)
qed

text \<open>
  The same for a whole iteration of the batch driver, which passes the default values
  explicitly: when the questions have distinct ids and a text each, the engine answers
  the first request with at least one result per prompt, and \<open>answers.txt\<close> can be opened
  for writing, the requests submitted are the
  round-1 request followed by the round-2 request whose prompts embed the transcripts
  rendered from the round-1 answers.
\<close>
theorem main_iteration_submits:
  assumes keys: "distinct (map fst raw_questions)"
    and texts: "\<forall>e \<in> set raw_questions. question_text (snd e) \<noteq> None"
    and reply: "llm (map (\<lambda>e. ''<s> [INST] '' @ formatted_question (snd e) @ '' [/INST]'')
                       raw_questions,
                     SamplingParams 7 10 1024) = Inr raw_answers"
    and enough: "length raw_questions \<le> length raw_answers"
    and opens: "writable fs ''answers.txt''"
  shows "run_submitted (main_iteration llm raw_questions fs) =
     [(map (\<lambda>e. ''<s> [INST] '' @ formatted_question (snd e) @ '' [/INST]'') raw_questions,
       SamplingParams 7 10 1024),
      (map (\<lambda>p. ''<s> [INST] ''
                 @ final_prompt_text
                     (rendered ((snd (new_session (snd p)))\<lparr>answers := Some (raw_answers ! fst p)\<rparr>))
                 @ '' [/INST]'')
           (enumerate 0 raw_questions),
       SamplingParams 1 3 1024)]"
proof -
  define S0 where "S0 = map new_session raw_questions"
  define S1 where "S1 =
    map (\<lambda>p. (fst (snd p), (snd (snd p))\<lparr>answers := Some (raw_answers ! fst p)\<rparr>)) (enumerate 0 S0)"
  define S2 where "S2 = map write_transcript S1"
  define transcripts where "transcripts = map (\<lambda>e. rendered (snd e)) S1"
  obtain out1 where gen: "generate_sessions raw_questions = (Inr S0, out1)"
    using generate_sessions_loop_closed [OF keys _ texts, of "[]" "[]"]
    by (simp add: generate_sessions_def S0_def)
  have prompts1: "map (\<lambda>e. ''<s> [INST] '' @ question_formatted (snd e) @ '' [/INST]'') S0 =
      map (\<lambda>e. ''<s> [INST] '' @ formatted_question (snd e) @ '' [/INST]'') raw_questions"
    by (simp add: S0_def new_session_def comp_def)
  have keys0: "distinct (map fst S0)"
    using keys by (simp add: S0_def new_session_def comp_def)
  have reply0: "llm (map (\<lambda>e. ''<s> [INST] '' @ question_formatted (snd e) @ '' [/INST]'') S0,
      SamplingParams 7 10 1024) = Inr raw_answers"
    using reply by (simp only: prompts1)
  have enough0: "length S0 \<le> length raw_answers"
    using enough by (simp add: S0_def)
  note r1 = answer_batch_questions_answered
    [where llm = llm and sessions = S0 and raw_answers = raw_answers,
     OF keys0 reply0 enough0, folded S1_def]
  have sub1: "submitted (answer_batch_questions llm S0 (Some 7) (Some 10)) =
     [(map (\<lambda>e. ''<s> [INST] '' @ formatted_question (snd e) @ '' [/INST]'') raw_questions,
       SamplingParams 7 10 1024)]"
    by (simp only: submitted_answer_batch_questions prompts1 option.case)
  have fmt: "format_session_outputs S1 = (S2, None)"
    unfolding S1_def S2_def by (rule format_session_outputs_answered)
  have present: "map (\<lambda>e. formatted_output (snd e)) S2 = map Some transcripts"
    by (simp add: S2_def transcripts_def write_transcript_def comp_def)
  then have "\<forall>e \<in> set S2. formatted_output (snd e) \<noteq> None"
    by (auto simp: S2_def write_transcript_def)
  then have saved: "snd (save_file S2 (Some ''answers.txt'') fs) = None"
    using opens by (intro save_file_no_error) (simp_all add: can_open_def)
  have "transcripts = map (\<lambda>p. rendered ((snd (new_session (snd p)))\<lparr>answers := Some (raw_answers ! fst p)\<rparr>))
      (enumerate 0 raw_questions)"
    by (simp add: transcripts_def S1_def S0_def enumerate_map comp_def)
  with submitted_answer_batch_questions_final [OF present, of llm "Some 1" "Some 3"]
  have sub2: "submitted (answer_batch_questions_final llm S2 (Some 1) (Some 3)) =
     [(map (\<lambda>p. ''<s> [INST] ''
                 @ final_prompt_text
                     (rendered ((snd (new_session (snd p)))\<lparr>answers := Some (raw_answers ! fst p)\<rparr>))
                 @ '' [/INST]'')
           (enumerate 0 raw_questions),
       SamplingParams 1 3 1024)]"
    by (simp add: comp_def)
  from sub2 show ?thesis
    by (simp add: main_iteration_def gen r1 sub1 fmt saved Let_def case_prod_beta)
qed

theorem main_iteration_submits_witness:
  "run_submitted (main_iteration (\<lambda>req. Inr (map (\<lambda>p. [''yes'']) (fst req)))
       [(''q1'', \<lparr>question_text = Some ''Why?'', options = None\<rparr>)]
       \<lparr>contents = Map.empty, writable = (\<lambda>name. True)\<rparr>) =
     [([''<s> [INST] QUESTION: Why?'' @ nl @ nl @ nl
        @ '' Please provide the answer and explain your reasoning!''
        @ '' If there are options to choose from, do not provide an answer different from the options.''
        @ nl @ '' [/INST]''],
       SamplingParams 7 10 1024),
      ([''<s> [INST] QUESTION: Why?'' @ nl @ nl @ nl
        @ '' Please provide the answer and explain your reasoning!''
        @ '' If there are options to choose from, do not provide an answer different from the options.''
        @ nl @ nl @ nl @ nl
        @ replicate 45 CHR ''-'' @ ''[ANSWER 0]'' @ replicate 45 CHR ''-'' @ nl
        @ ''yes'' @ nl @ nl @ nl
        @ nl @ ''~~~~~~~~~~'' @ nl @ nl
        @ ''Please provide the CORRECT final answer based on the question and the independent answers above. Explain why please!''
        @ nl @ '' [/INST]''],
       SamplingParams 1 3 1024)]"
proof -
  let ?llm = "\<lambda>req :: request. (Inr (map (\<lambda>p. [''yes'']) (fst req)) :: error + string list list)"
  let ?raw = "[(''q1'', \<lparr>question_text = Some ''Why?'', options = None\<rparr>)]"
  have keys: "distinct (map fst ?raw)" by simp
  have texts: "\<forall>e \<in> set ?raw. question_text (snd e) \<noteq> None" by simp
  have reply: "?llm (map (\<lambda>e. ''<s> [INST] '' @ formatted_question (snd e) @ '' [/INST]'') ?raw,
      SamplingParams 7 10 1024) = Inr [[''yes'']]"
    by simp
  have enough: "length ?raw \<le> length [[''yes'']]" by simp
  have tildes: "replicate 10 CHR ''~'' = ''~~~~~~~~~~''"
    by (simp add: numeral_eq_Suc)
  have opens: "writable \<lparr>contents = Map.empty, writable = (\<lambda>name. True)\<rparr> ''answers.txt''"
    by simp
  from main_iteration_submits [where llm = ?llm, OF keys texts reply enough opens]
  show ?thesis
    by (simp add: formatted_question_def format_question_def new_session_def rendered_def
        render_session_def append_answer_def final_prompt_text_def tildes repeat_str_def
        str_nat_digit digit_char_def)
qed

section \<open>The interactive driver\<close>

text \<open>
  An interruption while the user's turn is being read happens before anything is
  changed: the loop goes on with the conversation as it was.
\<close>

lemma turn_input_interrupted:
  assumes "fst (multiline_input
      (nl @ nl @ USER @ '' ['' @ str_nat (length (user_messages c)) @ '']: '')
      [] (stdin t) (stdout t)) = Inl KeyboardInterrupt"
  shows "fst (turn c t) = Continue" and "fst (snd (turn c t)) = c"
  using assms by (simp_all add: turn_def Let_def case_prod_beta)

text \<open>
  An interruption of the generation is caught too, but the user message has already been
  appended: the loop goes on with one user message more than the turn started with and
  no reply to it.
\<close>

lemma turn_generation_interrupted:
  assumes "fst (multiline_input
      (nl @ nl @ USER @ '' ['' @ str_nat (length (user_messages c)) @ '']: '')
      [] (stdin t) (stdout t)) = Inr user_message"
    and "\<not> str_contains ''CLEAR'' user_message"
    and "\<not> str_contains ''EXIT'' user_message"
    and "length (user_messages c) = length (bot_messages c)"
    and "replies t = Interrupted # later"
  shows "fst (turn c t) = Continue"
    and "fst (snd (turn c t)) = c\<lparr>user_messages := user_messages c @ [user_message]\<rparr>"
  using assms
  by (simp_all add: turn_def Let_def case_prod_beta build_conversation_prompt_def
      split: list.splits)

text \<open>
  From such a conversation, the next ordinary message makes the prompt builder raise its
  \<open>ValueError\<close>, which nothing catches.
\<close>

lemma turn_after_unanswered_message:
  assumes "fst (multiline_input
      (nl @ nl @ USER @ '' ['' @ str_nat (length (user_messages c)) @ '']: '')
      [] (stdin t) (stdout t)) = Inr user_message"
    and "\<not> str_contains ''CLEAR'' user_message"
    and "\<not> str_contains ''EXIT'' user_message"
    and "length (user_messages c) = length (bot_messages c) + 1"
  shows "fst (turn c t) =
    Crash (ValueError ''User messages and bot messages must be of equal length'')"
  using assms
  by (simp add: turn_def Let_def case_prod_beta build_conversation_prompt_def)

text \<open>
  Claim C9 on the code. The user types \<open>hello\<close> and a blank line, and the generation is
  interrupted: the interruption is caught and the loop continues, but the conversation
  is not the one the turn started with (\<open>hello\<close> stays in the user messages, without a
  reply). When the user then types \<open>again\<close> and a blank line, the program ends with the
  \<open>ValueError\<close> of the prompt builder.
\<close>

theorem chat_generation_interrupt_breaks_history:
  "fst (turn initial_conversation
         \<lparr>stdin = [Line ''hello'', Line ''''], replies = [Interrupted],
          stdout = [], requested = []\<rparr>) = Continue
   \<and> fst (snd (turn initial_conversation
         \<lparr>stdin = [Line ''hello'', Line ''''], replies = [Interrupted],
          stdout = [], requested = []\<rparr>))
       = initial_conversation
           \<lparr>user_messages := user_messages initial_conversation @ [''hello'']\<rparr>
   \<and> fst (snd (turn initial_conversation
         \<lparr>stdin = [Line ''hello'', Line ''''], replies = [Interrupted],
          stdout = [], requested = []\<rparr>))
       \<noteq> initial_conversation
   \<and> fst (run initial_conversation
         \<lparr>stdin = [Line ''hello'', Line '''', Line ''again'', Line ''''],
          replies = [Interrupted, Response ''hi''],
          stdout = [], requested = []\<rparr>)
       = Crash (ValueError ''User messages and bot messages must be of equal length'')"
proof -
  let ?t = "\<lparr>stdin = [Line ''hello'', Line ''''], replies = [Interrupted],
          stdout = [], requested = []\<rparr>"
  let ?t2 = "\<lparr>stdin = [Line ''hello'', Line '''', Line ''again'', Line ''''],
          replies = [Interrupted, Response ''hi''],
          stdout = [], requested = []\<rparr>"
  have first: "fst (turn initial_conversation ?t) = Continue"
    "fst (snd (turn initial_conversation ?t))
       = initial_conversation\<lparr>user_messages := user_messages initial_conversation @ [''hello'']\<rparr>"
    by (simp_all add: turn_def Let_def initial_conversation_def build_conversation_prompt_def)
  have changed: "initial_conversation\<lparr>user_messages := user_messages initial_conversation @ [''hello'']\<rparr>
      \<noteq> initial_conversation"
    by (simp add: initial_conversation_def)
  have crash: "fst (run initial_conversation ?t2)
       = Crash (ValueError ''User messages and bot messages must be of equal length'')"
    by (simp add: run.simps turn_def Let_def initial_conversation_def build_conversation_prompt_def)
  from first changed crash show ?thesis
    by simp
qed

end
